theory Spec2Isabelle
  imports Main
begin

section \<open>Data model of the vertical split diff worker\<close>

text \<open>
  The worker of \<^verbatim>\<open>VerticalSplitDiffWorker\<close> drives four phases (init, findTargets,
  synchronizeReplication, diff) and a final cleanup. Everything it calls outside its own
  file (topology server, tablet manager client, tablet selection, schema tools, row differ,
  cleaner, error recorder, status worker) is a collaborator; the outcome of each collaborator
  call is supplied by an environment record, one field per call site, so that the worker's
  own control flow is modelled exactly and the collaborators are unconstrained.
\<close>

datatype WorkerState =
    WorkerStateInit
  | WorkerStateFindTargets
  | WorkerStateSyncReplication
  | WorkerStateDiff
  | WorkerStateDiffWillFail
  | WorkerStateCleanUp
  | WorkerStateDone
  | WorkerStateError

datatype TabletType = PRIMARY | REPLICA | RDONLY | SPARE | DRAINED

datatype TabletAlias = TabletAlias string nat

datatype Tablet = Tablet TabletAlias

record SourceShard =
  Uid :: nat
  Keyspace :: string
  Shard :: string
  Tables :: "string list"

text \<open>Modelled from the spec: a shard record names its primary, or has none, and lists its
  source shards. \<^verbatim>\<open>HasPrimary\<close> is not part of this file; no primary is \<open>None\<close> here.\<close>

record ShardInfo =
  PrimaryAlias :: "TabletAlias option"
  SourceShards :: "SourceShard list"

definition HasPrimary :: "ShardInfo \<Rightarrow> bool" where
  "HasPrimary si = (PrimaryAlias si \<noteq> None)"

record KeyspaceInfo =
  ServedFroms :: "(TabletType \<times> string) list"

record TableDefinition =
  Name :: string
  Columns :: "string list"
  PrimaryKeyColumns :: "string list"

record SchemaDefinition =
  TableDefinitions :: "TableDefinition list"

text \<open>Modelled from the spec: the row differ's report is not part of this file. The spec's
  DiscrepancyReport holds a processed-row count and a list of typed discrepancies and
  exposes whether any discrepancy was found.\<close>

datatype Discrepancy =
    ExtraInSource "string list"
  | ExtraInDestination "string list"
  | ValueMismatch string string string

record DiffReport =
  processedRows :: nat
  discrepancies :: "Discrepancy list"

definition HasDifferences :: "DiffReport \<Rightarrow> bool" where
  "HasDifferences r = (discrepancies r \<noteq> [])"

text \<open>Errors. \<open>External\<close> is an error value handed back by a collaborator; \<open>Errorf\<close>
  is built locally by \<^verbatim>\<open>fmt.Errorf\<close> (format string and arguments kept apart);
  \<open>Wrap\<close> and \<open>Wrapf\<close> are \<^verbatim>\<open>vterrors.Wrap\<close> and \<^verbatim>\<open>vterrors.Wrapf\<close>;
  \<open>Aggregate\<close> is what an error recorder returns for the errors it holds.\<close>

datatype fmtarg =
    FStr string
  | FAlias "TabletAlias option"
  | FAliasString "TabletAlias option"
  | FResult "string list list"
  | FReport DiffReport

datatype error =
    External string
  | Errorf string "fmtarg list"
  | Wrap error string
  | Wrapf error string "fmtarg list"
  | Aggregate "error list"

datatype vrquery =
    StopVReplication nat string
  | StartVReplication nat
  | ReadVReplicationPos nat
  | StartVReplicationUntil nat string

text \<open>Modelled from the spec: the CompensationChain is an ordered, append-only list of
  tagged compensating actions; the cleaner and the \<^verbatim>\<open>Record...Action\<close> helpers are not
  part of this file.\<close>

datatype action =
    VReplicationAction Tablet vrquery
  | StartReplicationAction Tablet
  | ChangeTabletTypeAction TabletAlias TabletType
  | TabletTagAction TabletAlias string

text \<open>Collaborator calls, as they appear in the worker, with their arguments.\<close>

datatype rcall =
    GetKeyspace string
  | GetShard string string
  | FindWorkerTablet string string string int TabletType
  | GetTablet "TabletAlias option"
  | VReplicationExec Tablet vrquery
  | StopReplicationMinimum Tablet string
  | VReplicationWaitForPos Tablet nat string
  | PrimaryPosition Tablet
  | GetSchema "TabletAlias option" "string list"
  | DiffSchema SchemaDefinition SchemaDefinition
  | TableScan "TabletAlias option" TableDefinition
  | NewRowDiffer TableDefinition
  | DifferGo TableDefinition

text \<open>Log lines of warning and error level (progress lines at info level are left out).\<close>

datatype logentry =
    LogErrorf2 error string
  | LogError error
  | LogWarningf string "error option"

text \<open>
  The worker. \<open>state\<close> is the status worker's current state. The last four fields are
  observation traces that the Go code does not hold: every state set, every collaborator
  call with whether it returned without error, every warning or error logged, and for every
  run of the cleaner the actions it executed, in execution order.
\<close>

record worker =
  state :: WorkerState
  cell :: string
  keyspace :: string
  shard :: string
  minHealthyRdonlyTablets :: int
  parallelDiffsCount :: int
  cleaner :: "action list"
  keyspaceInfo :: "KeyspaceInfo option"
  shardInfo :: "ShardInfo option"
  sourceAlias :: "TabletAlias option"
  destinationAlias :: "TabletAlias option"
  destinationTabletType :: TabletType
  sourceSchemaDefinition :: "SchemaDefinition option"
  destinationSchemaDefinition :: "SchemaDefinition option"
  states :: "WorkerState list"
  calls :: "(rcall \<times> bool) list"
  logs :: "logentry list"
  cleanups :: "action list list"

text \<open>
  The environment: what each collaborator call returns at its call site. \<open>checkDone n\<close> is
  the result of the cancellation check after phase \<open>n\<close>. The tablet selection also says which
  actions it registered with the cleaner. The two scheduling fields fix the order in which
  concurrently running goroutines reach the shared recorder.
\<close>

record env =
  getKeyspace :: "error + KeyspaceInfo"
  getShard :: "error + ShardInfo"
  checkDone :: "nat \<Rightarrow> error option"
  findDestination :: "action list \<times> (error + TabletAlias)"
  findSource :: "action list \<times> (error + TabletAlias)"
  getTabletPrimary :: "error + Tablet"
  stopVReplication :: "error option"
  readVReplicationPos :: "error + string list list"
  getTabletSource :: "error + Tablet"
  stopReplicationSource :: "error + string"
  startVReplicationUntil :: "error option"
  waitForPos :: "error option"
  primaryPosition :: "error + string"
  getTabletDestination :: "error + Tablet"
  stopReplicationDestination :: "error option"
  startVReplication :: "error option"
  getSchemaDestination :: "error + SchemaDefinition"
  getSchemaSource :: "error + SchemaDefinition"
  destinationFetchFirst :: bool
  diffSchema :: "SchemaDefinition \<Rightarrow> SchemaDefinition \<Rightarrow> error list"
  tableScanSource :: "TableDefinition \<Rightarrow> error option"
  tableScanDestination :: "TableDefinition \<Rightarrow> error option"
  newRowDiffer :: "TableDefinition \<Rightarrow> error option"
  differGo :: "TableDefinition \<Rightarrow> error + DiffReport"
  goSchedule :: "TableDefinition \<Rightarrow> nat"
  cleanUpAction :: "action \<Rightarrow> error option"

section \<open>Collaborators\<close>

text \<open>Modelled from the spec: the status worker (\<^verbatim>\<open>StatusWorker\<close>) holds exactly one
  active state, and \<^verbatim>\<open>SetState\<close> replaces it. A value that a failed call hands back
  beside its error is taken to be nil.\<close>

definition SetState :: "WorkerState \<Rightarrow> worker \<Rightarrow> worker" where
  "SetState s w = w\<lparr>state := s, states := states w @ [s]\<rparr>"

definition called :: "rcall \<Rightarrow> bool \<Rightarrow> worker \<Rightarrow> worker" where
  "called c ok w = w\<lparr>calls := calls w @ [(c, ok)]\<rparr>"

definition logged :: "logentry \<Rightarrow> worker \<Rightarrow> worker" where
  "logged l w = w\<lparr>logs := logs w @ [l]\<rparr>"

text \<open>Modelled from the spec: the ErrorAccumulator (\<^verbatim>\<open>concurrency.AllErrorRecorder\<close>)
  collects errors and exposes "has any" and the combined error.\<close>

definition RecordError :: "error list \<Rightarrow> error \<Rightarrow> error list" where
  "RecordError rec e = rec @ [e]"

definition HasErrors :: "error list \<Rightarrow> bool" where
  "HasErrors rec = (rec \<noteq> [])"

definition recError :: "error list \<Rightarrow> error option" where
  "recError rec = (if rec = [] then None else Some (Aggregate rec))"

text \<open>Modelled from the spec: registering a compensating action appends it to the chain.\<close>

definition Record :: "action \<Rightarrow> worker \<Rightarrow> worker" where
  "Record a w = w\<lparr>cleaner := cleaner w @ [a]\<rparr>"

text \<open>Modelled from the spec: \<^verbatim>\<open>Cleaner.CleanUp\<close> is not part of this file. The chain is
  consumed in reverse registration order; every action is attempted even when an earlier
  one failed; the errors of the failed ones are combined.\<close>

definition CleanUp :: "env \<Rightarrow> worker \<Rightarrow> worker \<times> error option" where
  "CleanUp e w =
     (let order = rev (cleaner w);
          errs = List.map_filter (cleanUpAction e) order
      in (w\<lparr>cleaner := [], cleanups := cleanups w @ [order]\<rparr>, recError errs))"

section \<open>The phases\<close>

definition init :: "env \<Rightarrow> worker \<Rightarrow> worker \<times> error option" where
  "init e w0 =
     (let w = SetState WorkerStateInit w0 in
      case getKeyspace e of
        Inl err \<Rightarrow>
          ((called (GetKeyspace (keyspace w)) False w)\<lparr>keyspaceInfo := None\<rparr>,
           Some (Wrapf err ''cannot read keyspace %v'' [FStr (keyspace w)]))
      | Inr ki \<Rightarrow>
         (let w = (called (GetKeyspace (keyspace w)) True w)\<lparr>keyspaceInfo := Some ki\<rparr> in
          if length (ServedFroms ki) = 0 then
            (w, Some (Errorf ''keyspace %v has no KeyspaceServedFrom'' [FStr (keyspace w)]))
          else
            case getShard e of
              Inl err \<Rightarrow>
                ((called (GetShard (keyspace w) (shard w)) False w)\<lparr>shardInfo := None\<rparr>,
                 Some (Wrapf err ''cannot read shard %v/%v''
                         [FStr (keyspace w), FStr (shard w)]))
            | Inr si \<Rightarrow>
               (let w = (called (GetShard (keyspace w) (shard w)) True w)
                          \<lparr>shardInfo := Some si\<rparr> in
                case SourceShards si of
                  [ss] \<Rightarrow>
                    if length (Tables ss) = 0 then
                      (w, Some (Errorf ''shard %v/%v has no tables in source shard[0]''
                                  [FStr (keyspace w), FStr (shard w)]))
                    else if \<not> HasPrimary si then
                      (w, Some (Errorf ''shard %v/%v has no master''
                                  [FStr (keyspace w), FStr (shard w)]))
                    else (w, None)
                | _ \<Rightarrow>
                    (w, Some (Errorf ''shard %v/%v has bad number of source shards''
                                [FStr (keyspace w), FStr (shard w)])))))"

text \<open>
  From here on a phase may fail to return: \<open>None\<close> stands for a Go panic (reading
  \<^verbatim>\<open>SourceShards[0]\<close> of a shard record that is nil or has no source shard) or for blocking
  forever.
\<close>

definition findTargets :: "env \<Rightarrow> worker \<Rightarrow> (worker \<times> error option) option" where
  "findTargets e w0 =
     (let w = SetState WorkerStateFindTargets w0;
          w = called (FindWorkerTablet (cell w) (keyspace w) (shard w) 1
                        (destinationTabletType w))
                (\<not> isl (snd (findDestination e))) w;
          w = w\<lparr>cleaner := cleaner w @ fst (findDestination e)\<rparr>
      in
      case snd (findDestination e) of
        Inl err \<Rightarrow>
          Some (w\<lparr>destinationAlias := None\<rparr>,
                Some (Wrapf err ''FindWorkerTablet() failed for %v/%v/%v''
                        [FStr (cell w), FStr (keyspace w), FStr (shard w)]))
      | Inr da \<Rightarrow>
         (let w = w\<lparr>destinationAlias := Some da\<rparr> in
          case shardInfo w of
            None \<Rightarrow> None
          | Some si \<Rightarrow>
             (case SourceShards si of
                [] \<Rightarrow> None
              | ss # _ \<Rightarrow>
                 (let w = called (FindWorkerTablet (cell w) (Keyspace ss) (Shard ss)
                                    (minHealthyRdonlyTablets w) RDONLY)
                            (\<not> isl (snd (findSource e))) w;
                      w = w\<lparr>cleaner := cleaner w @ fst (findSource e)\<rparr>
                  in
                  case snd (findSource e) of
                    Inl err \<Rightarrow>
                      Some (w\<lparr>sourceAlias := None\<rparr>,
                            Some (Wrapf err ''FindWorkerTablet() failed for %v/%v/%v''
                                    [FStr (cell w), FStr (Keyspace ss), FStr (Shard ss)]))
                  | Inr sa \<Rightarrow> Some (w\<lparr>sourceAlias := Some sa\<rparr>, None)))))"

subsection \<open>synchronizeReplication\<close>

text \<open>Step 1: stop the filtered replication on the destination primary, register its
  restart with the cleaner, and read the position it stopped at.\<close>

definition syncStep1 ::
  "env \<Rightarrow> ShardInfo \<Rightarrow> SourceShard \<Rightarrow> Tablet \<Rightarrow> worker \<Rightarrow> worker \<times> (error + string)" where
  "syncStep1 e si ss masterInfo w0 =
     (let stop = VReplicationExec masterInfo (StopVReplication (Uid ss) ''for split diff'');
          readPos = VReplicationExec masterInfo (ReadVReplicationPos (Uid ss)) in
      case stopVReplication e of
        Some err \<Rightarrow>
          (called stop False w0,
           Inl (Wrapf err ''Stop VReplication on master %v failed''
                  [FAliasString (PrimaryAlias si)]))
      | None \<Rightarrow>
         (let w = called stop True w0;
              w = Record (VReplicationAction masterInfo (StartVReplication (Uid ss))) w
          in
          case readVReplicationPos e of
            Inl err \<Rightarrow>
              (called readPos False w,
               Inl (Wrapf err ''VReplicationExec(stop) for %v failed''
                      [FAlias (PrimaryAlias si)]))
          | Inr rows \<Rightarrow>
             (let w = called readPos True w in
              case rows of
                [[vreplicationPos]] \<Rightarrow> (w, Inr vreplicationPos)
              | _ \<Rightarrow>
                 (w, Inl (Errorf ''unexpected result while reading position: %v''
                            [FResult rows])))))"

text \<open>Step 2: stop the source tablet at or after that position and register the restart of
  its replication.\<close>

definition syncStep2 :: "env \<Rightarrow> string \<Rightarrow> worker \<Rightarrow> worker \<times> (error + string)" where
  "syncStep2 e vreplicationPos w0 =
     (case getTabletSource e of
        Inl err \<Rightarrow> (called (GetTablet (sourceAlias w0)) False w0, Inl err)
      | Inr sourceTablet \<Rightarrow>
         (let w = called (GetTablet (sourceAlias w0)) True w0;
              stop = StopReplicationMinimum sourceTablet vreplicationPos in
          case stopReplicationSource e of
            Inl err \<Rightarrow>
              (called stop False w,
               Inl (Wrapf err ''cannot stop replica %v at right binlog position %v''
                      [FAliasString (sourceAlias w), FStr vreplicationPos]))
          | Inr mysqlPos \<Rightarrow>
              (Record (StartReplicationAction sourceTablet) (called stop True w),
               Inr mysqlPos)))"

text \<open>Step 3: let the destination primary catch up to the source's position, wait for it,
  and read the primary's own position.\<close>

definition syncStep3 ::
  "env \<Rightarrow> ShardInfo \<Rightarrow> SourceShard \<Rightarrow> Tablet \<Rightarrow> string \<Rightarrow> worker \<Rightarrow> worker \<times> (error + string)" where
  "syncStep3 e si ss masterInfo mysqlPos w0 =
     (let startUntil = VReplicationExec masterInfo (StartVReplicationUntil (Uid ss) mysqlPos);
          waitPos = VReplicationWaitForPos masterInfo (Uid ss) mysqlPos in
      case startVReplicationUntil e of
        Some err \<Rightarrow>
          (called startUntil False w0,
           Inl (Wrapf err ''VReplication(start until) for %v until %v failed''
                  [FAlias (PrimaryAlias si), FStr mysqlPos]))
      | None \<Rightarrow>
         (let w = called startUntil True w0 in
          case waitForPos e of
            Some err \<Rightarrow>
              (called waitPos False w,
               Inl (Wrapf err ''VReplicationWaitForPos for %v until %v failed''
                      [FAlias (PrimaryAlias si), FStr mysqlPos]))
          | None \<Rightarrow>
             (let w = called waitPos True w in
              case primaryPosition e of
                Inl err \<Rightarrow>
                  (called (PrimaryPosition masterInfo) False w,
                   Inl (Wrapf err ''PrimaryPosition for %v failed''
                          [FAlias (PrimaryAlias si)]))
              | Inr masterPos \<Rightarrow>
                  (called (PrimaryPosition masterInfo) True w, Inr masterPos))))"

text \<open>Step 4: stop the destination tablet at or after the primary's position and register
  the restart of its replication.\<close>

definition syncStep4 :: "env \<Rightarrow> string \<Rightarrow> worker \<Rightarrow> worker \<times> error option" where
  "syncStep4 e masterPos w0 =
     (case getTabletDestination e of
        Inl err \<Rightarrow> (called (GetTablet (destinationAlias w0)) False w0, Some err)
      | Inr destinationTablet \<Rightarrow>
         (let w = called (GetTablet (destinationAlias w0)) True w0;
              stop = StopReplicationMinimum destinationTablet masterPos in
          case stopReplicationDestination e of
            Some err \<Rightarrow>
              (called stop False w,
               Some (Wrapf err ''StopReplicationMinimum on %v at %v failed''
                       [FAliasString (destinationAlias w), FStr masterPos]))
          | None \<Rightarrow>
              (Record (StartReplicationAction destinationTablet) (called stop True w), None)))"

text \<open>Step 5: restart the filtered replication on the destination primary.\<close>

definition syncStep5 ::
  "env \<Rightarrow> ShardInfo \<Rightarrow> SourceShard \<Rightarrow> Tablet \<Rightarrow> worker \<Rightarrow> worker \<times> error option" where
  "syncStep5 e si ss masterInfo w0 =
     (let start = VReplicationExec masterInfo (StartVReplication (Uid ss)) in
      case startVReplication e of
        Some err \<Rightarrow>
          (called start False w0,
           Some (Wrapf err ''VReplicationExec(start) failed for %v''
                   [FAlias (PrimaryAlias si)]))
      | None \<Rightarrow> (called start True w0, None))"

definition syncSteps ::
  "env \<Rightarrow> ShardInfo \<Rightarrow> SourceShard \<Rightarrow> Tablet \<Rightarrow> worker \<Rightarrow> worker \<times> error option" where
  "syncSteps e si ss masterInfo w0 =
     (case syncStep1 e si ss masterInfo w0 of
        (w1, Inl err) \<Rightarrow> (w1, Some err)
      | (w1, Inr vreplicationPos) \<Rightarrow>
         (case syncStep2 e vreplicationPos w1 of
            (w2, Inl err) \<Rightarrow> (w2, Some err)
          | (w2, Inr mysqlPos) \<Rightarrow>
             (case syncStep3 e si ss masterInfo mysqlPos w2 of
                (w3, Inl err) \<Rightarrow> (w3, Some err)
              | (w3, Inr masterPos) \<Rightarrow>
                 (case syncStep4 e masterPos w3 of
                    (w4, Some err) \<Rightarrow> (w4, Some err)
                  | (w4, None) \<Rightarrow> syncStep5 e si ss masterInfo w4))))"

definition synchronizeReplication :: "env \<Rightarrow> worker \<Rightarrow> (worker \<times> error option) option" where
  "synchronizeReplication e w0 =
     (let w = SetState WorkerStateSyncReplication w0 in
      case shardInfo w of
        None \<Rightarrow> None
      | Some si \<Rightarrow>
         (case getTabletPrimary e of
            Inl err \<Rightarrow>
              Some (called (GetTablet (PrimaryAlias si)) False w,
                    Some (Wrapf err
                            ''synchronizeReplication: cannot get Tablet record for master %v''
                            [FAliasString (PrimaryAlias si)]))
          | Inr masterInfo \<Rightarrow>
             (let w = called (GetTablet (PrimaryAlias si)) True w in
              case SourceShards si of
                [] \<Rightarrow> None
              | ss # _ \<Rightarrow> Some (syncSteps e si ss masterInfo w))))"

subsection \<open>diff\<close>

definition markAsWillFail :: "error \<Rightarrow> worker \<times> error list \<Rightarrow> worker \<times> error list" where
  "markAsWillFail err wr =
     (case wr of (w, rec) \<Rightarrow> (SetState WorkerStateDiffWillFail w, RecordError rec err))"

text \<open>The two schema fetches. Each runs in its own goroutine; what it does to the shared
  worker and recorder is one block here.\<close>

definition fetchDestinationSchema ::
  "env \<Rightarrow> string list \<Rightarrow> worker \<times> error list \<Rightarrow> worker \<times> error list" where
  "fetchDestinationSchema e tables wr =
     (case wr of (w, rec) \<Rightarrow>
        (case getSchemaDestination e of
           Inl err \<Rightarrow>
             markAsWillFail err
               ((called (GetSchema (destinationAlias w) tables) False w)
                  \<lparr>destinationSchemaDefinition := None\<rparr>, rec)
         | Inr sd \<Rightarrow>
             ((called (GetSchema (destinationAlias w) tables) True w)
                \<lparr>destinationSchemaDefinition := Some sd\<rparr>, rec)))"

definition fetchSourceSchema ::
  "env \<Rightarrow> string list \<Rightarrow> worker \<times> error list \<Rightarrow> worker \<times> error list" where
  "fetchSourceSchema e tables wr =
     (case wr of (w, rec) \<Rightarrow>
        (case getSchemaSource e of
           Inl err \<Rightarrow>
             markAsWillFail err
               ((called (GetSchema (sourceAlias w) tables) False w)
                  \<lparr>sourceSchemaDefinition := None\<rparr>, rec)
         | Inr sd \<Rightarrow>
             ((called (GetSchema (sourceAlias w) tables) True w)
                \<lparr>sourceSchemaDefinition := Some sd\<rparr>, rec)))"

text \<open>The goroutine started for one table.\<close>

definition diffTable ::
  "env \<Rightarrow> TableDefinition \<Rightarrow> worker \<times> error list \<Rightarrow> worker \<times> error list" where
  "diffTable e tableDefinition wr =
     (case wr of (w0, rec) \<Rightarrow>
        (let scanS = TableScan (sourceAlias w0) tableDefinition;
             scanD = TableScan (destinationAlias w0) tableDefinition in
         case tableScanSource e tableDefinition of
           Some err \<Rightarrow>
            (let newErr = Wrap err ''TableScan(source) failed'' in
             case markAsWillFail newErr (called scanS False w0, rec) of
               (w, rec') \<Rightarrow> (logged (LogError newErr) w, rec'))
         | None \<Rightarrow>
            (let w1 = called scanS True w0 in
             case tableScanDestination e tableDefinition of
               Some err \<Rightarrow>
                (let newErr = Wrap err ''TableScan(destination) failed'' in
                 case markAsWillFail newErr (called scanD False w1, rec) of
                   (w, rec') \<Rightarrow> (logged (LogError newErr) w, rec'))
             | None \<Rightarrow>
                (let w2 = called scanD True w1 in
                 case newRowDiffer e tableDefinition of
                   Some err \<Rightarrow>
                    (let newErr = Wrap err ''NewRowDiffer() failed'' in
                     case markAsWillFail newErr
                            (called (NewRowDiffer tableDefinition) False w2, rec) of
                       (w, rec') \<Rightarrow> (logged (LogError newErr) w, rec'))
                 | None \<Rightarrow>
                    (let w3 = called (NewRowDiffer tableDefinition) True w2 in
                     case differGo e tableDefinition of
                       Inl err \<Rightarrow>
                         (logged (LogErrorf2 err ''Differ.Go failed'')
                            (called (DifferGo tableDefinition) False w3), rec)
                     | Inr report \<Rightarrow>
                        (let w4 = called (DifferGo tableDefinition) True w3 in
                         if HasDifferences report then
                           (let err = Errorf ''table %v has differences: %v''
                                        [FStr (Name tableDefinition), FReport report] in
                            case markAsWillFail err (w4, rec) of
                              (w, rec') \<Rightarrow> (logged (LogError err) w, rec'))
                         else (w4, rec)))))))"

text \<open>The two fetch goroutines and the wait for both. Both always run; the environment says
  which of them reaches the recorder first.\<close>

definition fetchSchemas :: "env \<Rightarrow> string list \<Rightarrow> worker \<Rightarrow> worker \<times> error list" where
  "fetchSchemas e tables w =
     (if destinationFetchFirst e
      then fetchSourceSchema e tables (fetchDestinationSchema e tables (w, []))
      else fetchDestinationSchema e tables (fetchSourceSchema e tables (w, [])))"

text \<open>
  Modelled from the spec: the semaphore (\<^verbatim>\<open>sync2.NewSemaphore\<close>) is a counting permit of
  size \<open>parallelDiffsCount\<close>, and a table's goroutine starts its work only once it holds a
  permit. With no permit at all no goroutine ever proceeds and the join never completes;
  a negative size is no permit set at all. Both are \<open>None\<close>.

  Goroutines that hold a permit run concurrently. Each touches the shared recorder, the
  state and the log at most in one block, so a run is a sequence of these blocks in the
  order the scheduler picks, which is \<open>goSchedule\<close>.
\<close>

definition diffTables ::
  "env \<Rightarrow> TableDefinition list \<Rightarrow> worker \<times> error list \<Rightarrow> (worker \<times> error list) option" where
  "diffTables e tds wr =
     (if parallelDiffsCount (fst wr) < 0 then None
      else if parallelDiffsCount (fst wr) = 0 \<and> tds \<noteq> [] then None
      else Some (fold (diffTable e) (sort_key (goSchedule e) tds) wr))"

definition diff :: "env \<Rightarrow> worker \<Rightarrow> (worker \<times> error option) option" where
  "diff e w0 =
     (let w = SetState WorkerStateDiff w0 in
      case shardInfo w of
        None \<Rightarrow> None
      | Some si \<Rightarrow>
         (case SourceShards si of
            [] \<Rightarrow> None
          | ss # _ \<Rightarrow>
             (case fetchSchemas e (Tables ss) w of
                (w1, rec) \<Rightarrow>
                  if HasErrors rec then Some (w1, recError rec)
                  else
                   (case destinationSchemaDefinition w1 of
                      None \<Rightarrow> None
                    | Some dsd \<Rightarrow>
                       (case sourceSchemaDefinition w1 of
                          None \<Rightarrow> None
                        | Some ssd \<Rightarrow>
                           (let rec1 = diffSchema e dsd ssd;
                                w2 = called (DiffSchema dsd ssd) True w1;
                                w3 = (if HasErrors rec1
                                      then logged (LogWarningf ''Different schemas: %v''
                                                     (recError rec1)) w2
                                      else w2)
                            in
                            case diffTables e (TableDefinitions dsd) (w3, rec1) of
                              None \<Rightarrow> None
                            | Some (w4, rec2) \<Rightarrow> Some (w4, recError rec2)))))))"

section \<open>run and Run\<close>

definition run :: "env \<Rightarrow> worker \<Rightarrow> (worker \<times> error option) option" where
  "run e w0 =
     (case init e w0 of
        (w1, Some err) \<Rightarrow> Some (w1, Some (Wrap err ''init() failed''))
      | (w1, None) \<Rightarrow>
         (case checkDone e 1 of
            Some err \<Rightarrow> Some (w1, Some err)
          | None \<Rightarrow>
             (case findTargets e w1 of
                None \<Rightarrow> None
              | Some (w2, Some err) \<Rightarrow> Some (w2, Some (Wrap err ''findTargets() failed''))
              | Some (w2, None) \<Rightarrow>
                 (case checkDone e 2 of
                    Some err \<Rightarrow> Some (w2, Some err)
                  | None \<Rightarrow>
                     (case synchronizeReplication e w2 of
                        None \<Rightarrow> None
                      | Some (w3, Some err) \<Rightarrow>
                          Some (w3, Some (Wrap err ''synchronizeReplication() failed''))
                      | Some (w3, None) \<Rightarrow>
                         (case checkDone e 3 of
                            Some err \<Rightarrow> Some (w3, Some err)
                          | None \<Rightarrow>
                             (case diff e w3 of
                                None \<Rightarrow> None
                              | Some (w4, Some err) \<Rightarrow>
                                  Some (w4, Some (Wrap err ''diff() failed''))
                              | Some (w4, None) \<Rightarrow>
                                 (case checkDone e 4 of
                                    Some err \<Rightarrow> Some (w4, Some err)
                                  | None \<Rightarrow> Some (w4, None)))))))))"

text \<open>\<^verbatim>\<open>resetVars()\<close> resets counters that are not part of the worker and is left out.\<close>

definition Run :: "env \<Rightarrow> worker \<Rightarrow> (worker \<times> error option) option" where
  "Run e w0 =
     (case run e w0 of
        None \<Rightarrow> None
      | Some (w1, err) \<Rightarrow>
         (case CleanUp e (SetState WorkerStateCleanUp w1) of
            (w2, cerr) \<Rightarrow>
             (case (case cerr of
                      Some ce \<Rightarrow>
                       (case err of
                          Some _ \<Rightarrow>
                            (logged (LogErrorf2 ce ''CleanUp failed in addition to job error'')
                               w2, err)
                        | None \<Rightarrow> (w2, cerr))
                    | None \<Rightarrow> (w2, err)) of
                (w3, Some err') \<Rightarrow> Some (SetState WorkerStateError w3, Some err')
              | (w3, None) \<Rightarrow> Some (SetState WorkerStateDone w3, None))))"

section \<open>Vocabulary for the properties\<close>

text \<open>The calls that change remote state and are undone by a registered action: stopping the
  filtered replication is undone by starting it again, stopping a tablet's replication by
  restarting it.\<close>

fun inverseOf :: "rcall \<Rightarrow> action option" where
  "inverseOf (VReplicationExec t (StopVReplication uid msg)) =
     Some (VReplicationAction t (StartVReplication uid))"
| "inverseOf (StopReplicationMinimum t pos) = Some (StartReplicationAction t)"
| "inverseOf _ = None"

text \<open>Every call in \<open>cs\<close> that succeeded and has an inverse finds that inverse in \<open>acts\<close>.\<close>

definition covered :: "(rcall \<times> bool) list \<Rightarrow> action list \<Rightarrow> bool" where
  "covered cs acts =
     (\<forall>c \<in> set cs. snd c \<longrightarrow>
        (case inverseOf (fst c) of None \<Rightarrow> True | Some a \<Rightarrow> a \<in> set acts))"

text \<open>A recorded call that stopped a replication, whether it succeeded or not.\<close>

definition stopsReplication :: "rcall \<times> bool \<Rightarrow> bool" where
  "stopsReplication c = (inverseOf (fst c) \<noteq> None)"

text \<open>What a phase may do to the worker: it never runs the cleaner, never changes the permit
  count, only appends to the call trace and to the cleaner, and what it appends is covered.\<close>

definition extends :: "worker \<Rightarrow> worker \<Rightarrow> bool" where
  "extends w w' =
     (cleanups w' = cleanups w \<and> parallelDiffsCount w' = parallelDiffsCount w \<and>
      (\<exists>cs acts. calls w' = calls w @ cs \<and> cleaner w' = cleaner w @ acts \<and> covered cs acts))"

text \<open>What a step of the synchronization leaves alone.\<close>

definition keeps :: "worker \<Rightarrow> worker \<Rightarrow> bool" where
  "keeps w w' = (states w' = states w \<and> state w' = state w \<and> logs w' = logs w \<and>
                 shardInfo w' = shardInfo w)"

text \<open>What the goroutines of the diff phase may do to the worker and the recorder: for every
  error they record they set the will-fail state once, and nothing else changes the state.\<close>

definition flagged :: "worker \<times> error list \<Rightarrow> worker \<times> error list \<Rightarrow> bool" where
  "flagged p p' =
     (extends (fst p) (fst p') \<and> shardInfo (fst p') = shardInfo (fst p) \<and>
      (\<exists>errs. snd p' = snd p @ errs \<and>
         states (fst p') = states (fst p) @ replicate (length errs) WorkerStateDiffWillFail \<and>
         state (fst p') = (if errs = [] then state (fst p) else WorkerStateDiffWillFail)))"

text \<open>The error the cleaner returns when it runs on a worker.\<close>

definition cleanUpError :: "env \<Rightarrow> worker \<Rightarrow> error option" where
  "cleanUpError e w = snd (CleanUp e (SetState WorkerStateCleanUp w))"



text \<open>The calls that belong to the comparison itself: the schema comparison and the
  per-table scans and row diffs.\<close>

fun comparisonCall :: "rcall \<Rightarrow> bool" where
  "comparisonCall (DiffSchema d s) = True"
| "comparisonCall (TableScan a td) = True"
| "comparisonCall (NewRowDiffer td) = True"
| "comparisonCall (DifferGo td) = True"
| "comparisonCall _ = False"

text \<open>The log lines written for the tables whose row differ's \<^verbatim>\<open>Go\<close> returned an error.\<close>

definition goFailures :: "env \<Rightarrow> TableDefinition list \<Rightarrow> logentry list" where
  "goFailures e tds =
     List.map_filter
       (\<lambda>td. case differGo e td of
               Inl err \<Rightarrow> Some (LogErrorf2 err ''Differ.Go failed'')
             | Inr report \<Rightarrow> None) tds"

text \<open>A table for which nothing fails and no difference is found, except that the row
  differ's \<^verbatim>\<open>Go\<close> may return an error; and an environment in which every other call
  succeeds, the schemas match and every table is of that kind.\<close>

definition quietTable :: "env \<Rightarrow> TableDefinition \<Rightarrow> bool" where
  "quietTable e td =
     (tableScanSource e td = None \<and> tableScanDestination e td = None \<and>
      newRowDiffer e td = None \<and>
      (case differGo e td of Inl err \<Rightarrow> True | Inr report \<Rightarrow> \<not> HasDifferences report))"

definition quietExceptGo :: "env \<Rightarrow> bool" where
  "quietExceptGo e =
     ((\<exists>ki. getKeyspace e = Inr ki \<and> ServedFroms ki \<noteq> []) \<and>
      (\<exists>si ss. getShard e = Inr si \<and> SourceShards si = [ss] \<and> Tables ss \<noteq> [] \<and>
         HasPrimary si) \<and>
      (\<forall>n. checkDone e n = None) \<and>
      \<not> isl (snd (findDestination e)) \<and> \<not> isl (snd (findSource e)) \<and>
      \<not> isl (getTabletPrimary e) \<and> stopVReplication e = None \<and>
      (\<exists>pos. readVReplicationPos e = Inr [[pos]]) \<and>
      \<not> isl (getTabletSource e) \<and> \<not> isl (stopReplicationSource e) \<and>
      startVReplicationUntil e = None \<and> waitForPos e = None \<and>
      \<not> isl (primaryPosition e) \<and> \<not> isl (getTabletDestination e) \<and>
      stopReplicationDestination e = None \<and> startVReplication e = None \<and>
      (\<exists>dsd ssd. getSchemaDestination e = Inr dsd \<and> getSchemaSource e = Inr ssd \<and>
         diffSchema e dsd ssd = [] \<and> list_all (quietTable e) (TableDefinitions dsd)) \<and>
      (\<forall>a. cleanUpAction e a = None))"

section \<open>Concrete runs\<close>

definition tabP :: Tablet where "tabP = Tablet (TabletAlias ''zone1'' 100)"

definition tabS :: Tablet where "tabS = Tablet (TabletAlias ''zone1'' 201)"

definition tabD :: Tablet where "tabD = Tablet (TabletAlias ''zone1'' 102)"

definition t1 :: TableDefinition where
  "t1 = \<lparr>Name = ''orders'', Columns = [''id'', ''msg''], PrimaryKeyColumns = [''id'']\<rparr>"

definition w0 :: worker where
  "w0 = \<lparr>state = WorkerStateInit, cell = ''zone1'', keyspace = ''dest'', shard = ''0'',
         minHealthyRdonlyTablets = 1, parallelDiffsCount = 8, cleaner = [],
         keyspaceInfo = None, shardInfo = None, sourceAlias = None, destinationAlias = None,
         destinationTabletType = RDONLY, sourceSchemaDefinition = None,
         destinationSchemaDefinition = None, states = [], calls = [], logs = [],
         cleanups = []\<rparr>"

text \<open>An environment in which every call succeeds and the one table has no differences.\<close>

definition envOK :: env where
  "envOK = \<lparr>
     getKeyspace = Inr \<lparr>ServedFroms = [(RDONLY, ''src'')]\<rparr>,
     getShard = Inr \<lparr>PrimaryAlias = Some (TabletAlias ''zone1'' 100),
                     SourceShards = [\<lparr>Uid = 1, Keyspace = ''src'', Shard = ''0'',
                                      Tables = [''orders'']\<rparr>]\<rparr>,
     checkDone = (\<lambda>_. None),
     findDestination = ([ChangeTabletTypeAction (TabletAlias ''zone1'' 102) RDONLY],
                        Inr (TabletAlias ''zone1'' 102)),
     findSource = ([ChangeTabletTypeAction (TabletAlias ''zone1'' 201) RDONLY],
                   Inr (TabletAlias ''zone1'' 201)),
     getTabletPrimary = Inr tabP,
     stopVReplication = None,
     readVReplicationPos = Inr [[''pos1'']],
     getTabletSource = Inr tabS,
     stopReplicationSource = Inr ''pos2'',
     startVReplicationUntil = None,
     waitForPos = None,
     primaryPosition = Inr ''pos3'',
     getTabletDestination = Inr tabD,
     stopReplicationDestination = None,
     startVReplication = None,
     getSchemaDestination = Inr \<lparr>TableDefinitions = [t1]\<rparr>,
     getSchemaSource = Inr \<lparr>TableDefinitions = [t1]\<rparr>,
     destinationFetchFirst = True,
     diffSchema = (\<lambda>_ _. []),
     tableScanSource = (\<lambda>_. None),
     tableScanDestination = (\<lambda>_. None),
     newRowDiffer = (\<lambda>_. None),
     differGo = (\<lambda>_. Inr \<lparr>processedRows = 3, discrepancies = []\<rparr>),
     goSchedule = (\<lambda>_. 0),
     cleanUpAction = (\<lambda>_. None)\<rparr>"

text \<open>The one table differs: the example of the spec, a row only in the source and a row only
  in the destination.\<close>

definition envDifferences :: env where
  "envDifferences = envOK\<lparr>differGo :=
     (\<lambda>_. Inr \<lparr>processedRows = 4,
                  discrepancies = [ExtraInSource [''2'', ''b''],
                                   ExtraInDestination [''3'', ''c'']]\<rparr>)\<rparr>"

text \<open>The last step of the synchronization fails, and so does one compensation.\<close>

definition envBothFail :: env where
  "envBothFail = envOK\<lparr>
     startVReplication := Some (External ''rpc deadline exceeded''),
     cleanUpAction := (\<lambda>a. if a = StartReplicationAction tabS
                            then Some (External ''tablet unreachable'') else None)\<rparr>"

text \<open>The context is cancelled while the replication is being synchronized.\<close>

definition envCancelled :: env where
  "envCancelled = envOK\<lparr>checkDone :=
     (\<lambda>n. if 3 \<le> n then Some (External ''context canceled'') else None)\<rparr>"

text \<open>The run succeeds and one compensation fails.\<close>

definition envCleanupFails :: env where
  "envCleanupFails = envOK\<lparr>cleanUpAction :=
     (\<lambda>a. if a = StartReplicationAction tabS
          then Some (External ''tablet unreachable'') else None)\<rparr>"

text \<open>Shard records that init rejects, and a keyspace without a ServedFrom entry.\<close>

definition envNoSources :: env where
  "envNoSources = envOK\<lparr>getShard :=
     Inr \<lparr>PrimaryAlias = Some (TabletAlias ''zone1'' 100), SourceShards = []\<rparr>\<rparr>"

definition envTwoSources :: env where
  "envTwoSources = envOK\<lparr>getShard :=
     Inr \<lparr>PrimaryAlias = Some (TabletAlias ''zone1'' 100),
          SourceShards = [\<lparr>Uid = 1, Keyspace = ''src'', Shard = ''-80'', Tables = [''orders'']\<rparr>,
                          \<lparr>Uid = 2, Keyspace = ''src'', Shard = ''80-'', Tables = [''orders'']\<rparr>]\<rparr>\<rparr>"

definition envNoServedFrom :: env where
  "envNoServedFrom = envOK\<lparr>getKeyspace := Inr \<lparr>ServedFroms = []\<rparr>\<rparr>"

text \<open>The schema of the source tablet cannot be fetched.\<close>

definition envFetchFails :: env where
  "envFetchFails = envOK\<lparr>getSchemaSource := Inl (External ''schema unavailable'')\<rparr>"

text \<open>The destination primary does not catch up in step 3.\<close>

definition envWaitFails :: env where
  "envWaitFails = envOK\<lparr>waitForPos := Some (External ''rpc deadline exceeded'')\<rparr>"

text \<open>The row differ of the one table returns an error.\<close>

definition envGoFails :: env where
  "envGoFails = envOK\<lparr>differGo := (\<lambda>_. Inl (External ''stream broken''))\<rparr>"

text \<open>Two tables; the first has differences, the second has none.\<close>

definition t2 :: TableDefinition where
  "t2 = \<lparr>Name = ''customers'', Columns = [''id'', ''name''], PrimaryKeyColumns = [''id'']\<rparr>"


text \<open>A worker as init and findTargets leave it.\<close>

definition wReady :: worker where
  "wReady = w0\<lparr>
     shardInfo := Some \<lparr>PrimaryAlias = Some (TabletAlias ''zone1'' 100),
                         SourceShards = [\<lparr>Uid = 1, Keyspace = ''src'', Shard = ''0'',
                                          Tables = [''orders'']\<rparr>]\<rparr>,
     sourceAlias := Some (TabletAlias ''zone1'' 201),
     destinationAlias := Some (TabletAlias ''zone1'' 102)\<rparr>"

section \<open>How the phases change the worker\<close>

lemma covered_Nil [simp]: "covered [] as"
  by (simp add: covered_def)

lemma covered_append:
  "covered cs acts \<Longrightarrow> covered cs' acts' \<Longrightarrow> covered (cs @ cs') (acts @ acts')"
  by (fastforce simp: covered_def split: option.splits)

lemma extends_refl [simp]: "extends w w"
  by (simp add: extends_def)

lemma extends_trans:
  assumes "extends w w'" and "extends w' w''"
  shows "extends w w''"
proof -
  from assms(1) obtain cs acts where
    1: "calls w' = calls w @ cs" "cleaner w' = cleaner w @ acts" "covered cs acts"
    by (auto simp: extends_def)
  from assms(2) obtain cs' acts' where
    2: "calls w'' = calls w' @ cs'" "cleaner w'' = cleaner w' @ acts'" "covered cs' acts'"
    by (auto simp: extends_def)
  have "calls w'' = calls w @ (cs @ cs')" "cleaner w'' = cleaner w @ (acts @ acts')"
    using 1 2 by simp_all
  moreover have "covered (cs @ cs') (acts @ acts')"
    using 1 2 by (simp add: covered_append)
  moreover have "cleanups w'' = cleanups w" "parallelDiffsCount w'' = parallelDiffsCount w"
    using assms by (simp_all add: extends_def)
  ultimately show ?thesis
    unfolding extends_def by blast
qed

lemma extends_SetState [simp]: "extends w (SetState s w)"
  by (simp add: extends_def SetState_def)

lemma extends_logged [simp]: "extends w (logged l w)"
  by (simp add: extends_def logged_def)

lemma init_extends: "init e w = (w', r) \<Longrightarrow> extends w w'"
  by (auto simp: init_def extends_def called_def SetState_def covered_def Let_def
      split: sum.splits if_splits list.splits)

lemma init_states: "init e w = (w', r) \<Longrightarrow>
   states w' = states w @ [WorkerStateInit] \<and> state w' = WorkerStateInit \<and> logs w' = logs w"
  by (auto simp: init_def called_def SetState_def Let_def
      split: sum.splits if_splits list.splits)

lemma init_ready: "init e w = (w', None) \<Longrightarrow>
   \<exists>si ss. shardInfo w' = Some si \<and> SourceShards si = [ss]"
  by (auto simp: init_def called_def SetState_def Let_def
      split: sum.splits if_splits list.splits)

lemma findTargets_extends: "findTargets e w = Some (w', r) \<Longrightarrow> extends w w'"
  by (auto simp: findTargets_def extends_def called_def SetState_def covered_def Let_def
      split: sum.splits if_splits list.splits option.splits)

lemma findTargets_states: "findTargets e w = Some (w', r) \<Longrightarrow>
   states w' = states w @ [WorkerStateFindTargets] \<and> state w' = WorkerStateFindTargets
   \<and> logs w' = logs w \<and> shardInfo w' = shardInfo w"
  by (auto simp: findTargets_def called_def SetState_def Let_def
      split: sum.splits if_splits list.splits option.splits)

lemma findTargets_returns: "shardInfo w = Some si \<Longrightarrow> SourceShards si = ss # rest \<Longrightarrow>
   \<exists>w' r. findTargets e w = Some (w', r)"
  by (auto simp: findTargets_def called_def SetState_def Let_def
      split: sum.splits if_splits list.splits option.splits)

lemmas prims = called_def SetState_def logged_def Record_def

lemma syncStep1_extends: "syncStep1 e si ss m w = (w', r) \<Longrightarrow> extends w w'"
  by (auto simp: syncStep1_def Let_def extends_def prims covered_def
      split: sum.splits option.splits list.splits)

lemma syncStep2_extends: "syncStep2 e p w = (w', r) \<Longrightarrow> extends w w'"
  by (auto simp: syncStep2_def Let_def extends_def prims covered_def
      split: sum.splits option.splits list.splits)

lemma syncStep3_extends: "syncStep3 e si ss m p w = (w', r) \<Longrightarrow> extends w w'"
  by (auto simp: syncStep3_def Let_def extends_def prims covered_def
      split: sum.splits option.splits list.splits)

lemma syncStep4_extends: "syncStep4 e p w = (w', r) \<Longrightarrow> extends w w'"
  by (auto simp: syncStep4_def Let_def extends_def prims covered_def
      split: sum.splits option.splits list.splits)

lemma syncStep5_extends: "syncStep5 e si ss m w = (w', r) \<Longrightarrow> extends w w'"
  by (auto simp: syncStep5_def Let_def extends_def prims covered_def
      split: sum.splits option.splits list.splits)

lemma syncSteps_extends: "syncSteps e si ss m w = (w', r) \<Longrightarrow> extends w w'"
  by (auto simp: syncSteps_def split: prod.splits sum.splits option.splits
      dest!: syncStep1_extends syncStep2_extends syncStep3_extends syncStep4_extends
        syncStep5_extends; blast intro: extends_trans)

lemma syncStep1_keeps: "syncStep1 e si ss m w = (w', r) \<Longrightarrow> keeps w w'"
  by (auto simp: syncStep1_def Let_def keeps_def prims
      split: sum.splits option.splits list.splits)

lemma syncStep2_keeps: "syncStep2 e p w = (w', r) \<Longrightarrow> keeps w w'"
  by (auto simp: syncStep2_def Let_def keeps_def prims
      split: sum.splits option.splits list.splits)

lemma syncStep3_keeps: "syncStep3 e si ss m p w = (w', r) \<Longrightarrow> keeps w w'"
  by (auto simp: syncStep3_def Let_def keeps_def prims
      split: sum.splits option.splits list.splits)

lemma syncStep4_keeps: "syncStep4 e p w = (w', r) \<Longrightarrow> keeps w w'"
  by (auto simp: syncStep4_def Let_def keeps_def prims
      split: sum.splits option.splits list.splits)

lemma syncStep5_keeps: "syncStep5 e si ss m w = (w', r) \<Longrightarrow> keeps w w'"
  by (auto simp: syncStep5_def Let_def keeps_def prims
      split: sum.splits option.splits list.splits)

lemma syncSteps_keeps: "syncSteps e si ss m w = (w', r) \<Longrightarrow> keeps w w'"
  by (auto simp: syncSteps_def split: prod.splits sum.splits option.splits
      dest!: syncStep1_keeps syncStep2_keeps syncStep3_keeps syncStep4_keeps
        syncStep5_keeps; simp add: keeps_def)

lemma synchronizeReplication_extends:
  "synchronizeReplication e w = Some (w', r) \<Longrightarrow> extends w w'"
proof -
  assume a: "synchronizeReplication e w = Some (w', r)"
  let ?w = "SetState WorkerStateSyncReplication w"
  from a obtain si where si: "shardInfo ?w = Some si"
    by (auto simp: synchronizeReplication_def Let_def split: option.splits)
  show ?thesis
  proof (cases "getTabletPrimary e")
    case (Inl err)
    with a si have "w' = called (GetTablet (PrimaryAlias si)) False ?w"
      by (auto simp: synchronizeReplication_def Let_def)
    then show ?thesis
      by (auto simp: extends_def prims covered_def)
  next
    case (Inr m)
    with a si obtain ss rest where
      "syncSteps e si ss m (called (GetTablet (PrimaryAlias si)) True ?w) = (w', r)"
      by (auto simp: synchronizeReplication_def Let_def split: list.splits)
    from syncSteps_extends [OF this]
    have "extends (called (GetTablet (PrimaryAlias si)) True ?w) w'" .
    moreover have "extends w (called (GetTablet (PrimaryAlias si)) True ?w)"
      by (auto simp: extends_def prims covered_def)
    ultimately show ?thesis
      by (blast intro: extends_trans)
  qed
qed

lemma synchronizeReplication_states:
  assumes a: "synchronizeReplication e w = Some (w', r)"
  shows "states w' = states w @ [WorkerStateSyncReplication] \<and>
         state w' = WorkerStateSyncReplication \<and> logs w' = logs w \<and>
         shardInfo w' = shardInfo w"
proof -
  let ?w = "SetState WorkerStateSyncReplication w"
  from a obtain si where si: "shardInfo ?w = Some si"
    by (auto simp: synchronizeReplication_def Let_def split: option.splits)
  show ?thesis
  proof (cases "getTabletPrimary e")
    case (Inl err)
    with a si have "w' = called (GetTablet (PrimaryAlias si)) False ?w"
      by (auto simp: synchronizeReplication_def Let_def)
    then show ?thesis
      by (auto simp: prims)
  next
    case (Inr m)
    with a si obtain ss rest where
      "syncSteps e si ss m (called (GetTablet (PrimaryAlias si)) True ?w) = (w', r)"
      by (auto simp: synchronizeReplication_def Let_def split: list.splits)
    from syncSteps_keeps [OF this] show ?thesis
      by (auto simp: keeps_def prims)
  qed
qed

lemma synchronizeReplication_returns:
  "shardInfo w = Some si \<Longrightarrow> SourceShards si = ss # rest \<Longrightarrow>
   \<exists>w' r. synchronizeReplication e w = Some (w', r)"
  by (cases "syncSteps e si ss (projr (getTabletPrimary e))
               (called (GetTablet (PrimaryAlias si)) True
                  (SetState WorkerStateSyncReplication w))")
     (auto simp: synchronizeReplication_def Let_def prims split: sum.splits)

lemma flagged_refl [simp]: "flagged p p"
  by (simp add: flagged_def)

lemma flagged_trans:
  assumes "flagged p p'" and "flagged p' p''"
  shows "flagged p p''"
proof -
  from assms(1) obtain errs where
    1: "snd p' = snd p @ errs"
       "states (fst p') = states (fst p) @ replicate (length errs) WorkerStateDiffWillFail"
       "state (fst p') = (if errs = [] then state (fst p) else WorkerStateDiffWillFail)"
    by (auto simp: flagged_def)
  from assms(2) obtain errs' where
    2: "snd p'' = snd p' @ errs'"
       "states (fst p'') = states (fst p') @ replicate (length errs') WorkerStateDiffWillFail"
       "state (fst p'') = (if errs' = [] then state (fst p') else WorkerStateDiffWillFail)"
    by (auto simp: flagged_def)
  have "snd p'' = snd p @ (errs @ errs')"
    "states (fst p'') = states (fst p) @ replicate (length (errs @ errs')) WorkerStateDiffWillFail"
    "state (fst p'') = (if errs @ errs' = [] then state (fst p) else WorkerStateDiffWillFail)"
    using 1 2 by (simp_all add: replicate_add)
  moreover have "extends (fst p) (fst p'')" "shardInfo (fst p'') = shardInfo (fst p)"
    using assms by (auto simp: flagged_def intro: extends_trans)
  ultimately show ?thesis
    unfolding flagged_def by blast
qed

lemma extends_calledI [simp]:
  "inverseOf c = None \<Longrightarrow> extends w w' \<Longrightarrow> extends w (called c ok w')"
  by (auto simp: extends_def called_def covered_def)

lemma extends_loggedI [simp]: "extends w w' \<Longrightarrow> extends w (logged l w')"
  by (auto simp: extends_def logged_def)

lemma extends_SetStateI [simp]: "extends w w' \<Longrightarrow> extends w (SetState s w')"
  by (auto simp: extends_def SetState_def)

lemma markAsWillFail_eq [simp]:
  "markAsWillFail err (w, rec) = (SetState WorkerStateDiffWillFail w, rec @ [err])"
  by (simp add: markAsWillFail_def RecordError_def)

lemma diffTable_extends: "extends w (fst (diffTable e td (w, rec)))"
  by (simp add: diffTable_def Let_def split: sum.splits option.splits)

lemma diffTable_shardInfo: "shardInfo (fst (diffTable e td (w, rec))) = shardInfo w"
  by (simp add: diffTable_def Let_def prims split: sum.splits option.splits)

lemma diffTable_rec:
  "diffTable e td (w, rec) = (w', rec') \<Longrightarrow>
     (rec' = rec \<and> states w' = states w \<and> state w' = state w) \<or>
     (\<exists>err. rec' = rec @ [err] \<and> states w' = states w @ [WorkerStateDiffWillFail] \<and>
        state w' = WorkerStateDiffWillFail)"
  by (auto simp: diffTable_def Let_def prims split: sum.splits option.splits if_splits)

lemma diffTable_flagged: "flagged p (diffTable e td p)"
proof -
  obtain w rec where p: "p = (w, rec)" by (cases p)
  obtain w' rec' where d: "diffTable e td (w, rec) = (w', rec')" by (cases "diffTable e td (w, rec)")
  have "extends w w'" "shardInfo w' = shardInfo w"
    using diffTable_extends [of w e td rec] diffTable_shardInfo [of e td w rec] d by simp_all
  moreover from diffTable_rec [OF d]
  have "\<exists>errs. rec' = rec @ errs \<and>
         states w' = states w @ replicate (length errs) WorkerStateDiffWillFail \<and>
         state w' = (if errs = [] then state w else WorkerStateDiffWillFail)"
  proof
    assume "rec' = rec \<and> states w' = states w \<and> state w' = state w"
    then show ?thesis by (intro exI [of _ "[]"]) simp
  next
    assume "\<exists>err. rec' = rec @ [err] \<and> states w' = states w @ [WorkerStateDiffWillFail] \<and>
        state w' = WorkerStateDiffWillFail"
    then obtain err where "rec' = rec @ [err]" "states w' = states w @ [WorkerStateDiffWillFail]"
      "state w' = WorkerStateDiffWillFail" by blast
    then show ?thesis by (intro exI [of _ "[err]"]) simp
  qed
  then obtain errs where "rec' = rec @ errs"
    "states w' = states w @ replicate (length errs) WorkerStateDiffWillFail"
    "state w' = (if errs = [] then state w else WorkerStateDiffWillFail)" by blast
  ultimately show ?thesis
    unfolding flagged_def p d by (intro conjI exI [of _ errs]) simp_all
qed

lemma fold_diffTable_flagged: "flagged p (fold (diffTable e) tds p)"
proof (induction tds arbitrary: p)
  case Nil
  show ?case by simp
next
  case (Cons td tds)
  have "flagged p (diffTable e td p)"
    by (rule diffTable_flagged)
  moreover have "flagged (diffTable e td p) (fold (diffTable e) tds (diffTable e td p))"
    by (rule Cons.IH)
  ultimately show ?case
    by (auto intro: flagged_trans)
qed

lemma fetchDestinationSchema_flagged: "flagged (w, rec) (fetchDestinationSchema e ts (w, rec))"
  by (cases "getSchemaDestination e")
     (auto simp: fetchDestinationSchema_def flagged_def prims extends_def covered_def)

lemma fetchSourceSchema_flagged: "flagged (w, rec) (fetchSourceSchema e ts (w, rec))"
  by (cases "getSchemaSource e")
     (auto simp: fetchSourceSchema_def flagged_def prims extends_def covered_def)

lemma fetchSchemas_flagged: "flagged (w, []) (fetchSchemas e ts w)"
proof (cases "destinationFetchFirst e")
  case True
  obtain w1 r1 where 1: "fetchDestinationSchema e ts (w, []) = (w1, r1)"
    by (cases "fetchDestinationSchema e ts (w, [])")
  have "flagged (w, []) (w1, r1)"
    using fetchDestinationSchema_flagged [of w "[]" e ts] 1 by simp
  moreover have "flagged (w1, r1) (fetchSourceSchema e ts (w1, r1))"
    by (rule fetchSourceSchema_flagged)
  ultimately show ?thesis
    using True 1 by (auto simp: fetchSchemas_def intro: flagged_trans)
next
  case False
  obtain w1 r1 where 1: "fetchSourceSchema e ts (w, []) = (w1, r1)"
    by (cases "fetchSourceSchema e ts (w, [])")
  have "flagged (w, []) (w1, r1)"
    using fetchSourceSchema_flagged [of w "[]" e ts] 1 by simp
  moreover have "flagged (w1, r1) (fetchDestinationSchema e ts (w1, r1))"
    by (rule fetchDestinationSchema_flagged)
  ultimately show ?thesis
    using False 1 by (auto simp: fetchSchemas_def intro: flagged_trans)
qed

lemma fetchSchemas_schemas:
  "fetchSchemas e ts w = (w', []) \<Longrightarrow>
   \<exists>dsd ssd. getSchemaDestination e = Inr dsd \<and> getSchemaSource e = Inr ssd \<and>
     destinationSchemaDefinition w' = Some dsd \<and> sourceSchemaDefinition w' = Some ssd"
  by (cases "getSchemaDestination e"; cases "getSchemaSource e")
     (auto simp: fetchSchemas_def fetchDestinationSchema_def fetchSourceSchema_def prims
      split: if_splits)

lemma flaggedD:
  assumes "flagged (w, rec) (w', rec')"
  obtains errs where "extends w w'" "shardInfo w' = shardInfo w" "rec' = rec @ errs"
    "states w' = states w @ replicate (length errs) WorkerStateDiffWillFail"
    "state w' = (if errs = [] then state w else WorkerStateDiffWillFail)"
  using assms unfolding flagged_def by auto

lemma diffTables_flagged: "diffTables e tds p = Some p' \<Longrightarrow> flagged p p'"
  using fold_diffTable_flagged [of p e "sort_key (goSchedule e) tds"]
  by (auto simp: diffTables_def split: if_splits)

lemma diff_spec:
  assumes a: "diff e w = Some (w', r)"
  shows "extends w w' \<and> shardInfo w' = shardInfo w \<and>
     (\<exists>n. states w' = states w @ WorkerStateDiff # replicate n WorkerStateDiffWillFail \<and>
          (0 < n \<longrightarrow> r \<noteq> None) \<and>
          state w' = (if n = 0 then WorkerStateDiff else WorkerStateDiffWillFail))"
proof -
  let ?w = "SetState WorkerStateDiff w"
  from a obtain si ss rest where si: "shardInfo ?w = Some si" "SourceShards si = ss # rest"
    by (auto simp: diff_def Let_def split: option.splits list.splits)
  obtain w1 rec where f: "fetchSchemas e (Tables ss) ?w = (w1, rec)"
    by (cases "fetchSchemas e (Tables ss) ?w")
  from fetchSchemas_flagged [of ?w e "Tables ss"] f have "flagged (?w, []) (w1, rec)" by simp
  then obtain errs0 where 0: "extends ?w w1" "shardInfo w1 = shardInfo ?w" "rec = [] @ errs0"
    "states w1 = states ?w @ replicate (length errs0) WorkerStateDiffWillFail"
    "state w1 = (if errs0 = [] then state ?w else WorkerStateDiffWillFail)"
    by (rule flaggedD)
  then have 1: "extends ?w w1" "shardInfo w1 = shardInfo ?w"
    "states w1 = states ?w @ replicate (length rec) WorkerStateDiffWillFail"
    "state w1 = (if rec = [] then state ?w else WorkerStateDiffWillFail)"
    by simp_all
  have w: "extends w ?w" "shardInfo ?w = shardInfo w"
    "states ?w = states w @ [WorkerStateDiff]" "state ?w = WorkerStateDiff"
    by (simp_all add: SetState_def extends_def)
  show ?thesis
  proof (cases "rec = []")
    case False
    with a si f have "w' = w1" "r = recError rec"
      by (auto simp: diff_def Let_def HasErrors_def)
    moreover have "extends w w1"
      using w(1) 1(1) by (rule extends_trans)
    ultimately show ?thesis
      using False 1 w by (auto simp: recError_def intro!: exI [of _ "length rec"])
  next
    case True
    with a si f obtain dsd ssd w4 rec2 where
      d: "diffTables e (TableDefinitions dsd)
           (if HasErrors (diffSchema e dsd ssd)
            then logged (LogWarningf ''Different schemas: %v'' (recError (diffSchema e dsd ssd)))
                   (called (DiffSchema dsd ssd) True w1)
            else called (DiffSchema dsd ssd) True w1, diffSchema e dsd ssd) = Some (w4, rec2)"
      and r: "w' = w4" "r = recError rec2"
      by (auto simp: diff_def Let_def HasErrors_def split: option.splits)
    let ?w3 = "if HasErrors (diffSchema e dsd ssd)
            then logged (LogWarningf ''Different schemas: %v'' (recError (diffSchema e dsd ssd)))
                   (called (DiffSchema dsd ssd) True w1)
            else called (DiffSchema dsd ssd) True w1"
    have 3: "extends w1 ?w3" "shardInfo ?w3 = shardInfo w1" "states ?w3 = states w1"
      "state ?w3 = state w1"
      by (simp_all add: prims extends_def covered_def)
    from diffTables_flagged [OF d] obtain errs where
      4: "extends ?w3 w4" "shardInfo w4 = shardInfo ?w3" "rec2 = diffSchema e dsd ssd @ errs"
      "states w4 = states ?w3 @ replicate (length errs) WorkerStateDiffWillFail"
      "state w4 = (if errs = [] then state ?w3 else WorkerStateDiffWillFail)"
      by (rule flaggedD)
    have "extends w w4"
      using w(1) 1(1) 3(1) 4(1) by (blast intro: extends_trans)
    moreover have "shardInfo w4 = shardInfo w"
      using w 1 3 4 by simp
    moreover have "states w4 = states w @ WorkerStateDiff # replicate (length errs) WorkerStateDiffWillFail"
      using w 1 3 4 True by simp
    moreover have "0 < length errs \<longrightarrow> recError rec2 \<noteq> None"
      using 4(3) by (simp add: recError_def)
    moreover have "state w4 = (if length errs = 0 then WorkerStateDiff else WorkerStateDiffWillFail)"
      using w 1 3 4 True by simp
    ultimately show ?thesis
      unfolding r by blast
  qed
qed

lemma diff_returns:
  assumes si: "shardInfo w = Some si" "SourceShards si = ss # rest"
    and k: "0 < parallelDiffsCount w"
  shows "\<exists>w' r. diff e w = Some (w', r)"
proof -
  let ?w = "SetState WorkerStateDiff w"
  have si': "shardInfo ?w = Some si" using si by (simp add: prims)
  obtain w1 rec where f: "fetchSchemas e (Tables ss) ?w = (w1, rec)"
    by (cases "fetchSchemas e (Tables ss) ?w")
  from fetchSchemas_flagged [of ?w e "Tables ss"] f have "flagged (?w, []) (w1, rec)" by simp
  then have "extends ?w w1" by (simp add: flagged_def)
  then have k1: "0 < parallelDiffsCount w1"
    using k by (simp add: extends_def prims)
  show ?thesis
  proof (cases "rec = []")
    case False
    with si' si f show ?thesis
      by (simp add: diff_def Let_def HasErrors_def)
  next
    case True
    with fetchSchemas_schemas [of e "Tables ss" ?w w1] f obtain dsd ssd where
      "destinationSchemaDefinition w1 = Some dsd" "sourceSchemaDefinition w1 = Some ssd"
      by auto
    with True si' si f k1 show ?thesis
      by (simp add: diff_def Let_def HasErrors_def diffTables_def prims split: prod.splits)
  qed
qed

lemma run_extends:
  assumes "run e w = Some (w1, r)"
  shows "extends w w1"
  using assms
  by (auto simp: run_def split: prod.splits option.splits
      dest!: init_extends findTargets_extends synchronizeReplication_extends diff_spec;
      blast intro: extends_trans)

lemma run_states:
  assumes "run e w = Some (w1, r)"
  shows "\<exists>tr. states w1 = states w @ tr \<and> state w1 = last tr \<and>
     (tr = [WorkerStateInit] \<or> tr = [WorkerStateInit, WorkerStateFindTargets] \<or>
      tr = [WorkerStateInit, WorkerStateFindTargets, WorkerStateSyncReplication] \<or>
      (\<exists>n. tr = [WorkerStateInit, WorkerStateFindTargets, WorkerStateSyncReplication,
                  WorkerStateDiff] @ replicate n WorkerStateDiffWillFail \<and>
           (0 < n \<longrightarrow> r \<noteq> None)))"
  using assms
  by (auto simp: run_def split: prod.splits option.splits
      dest!: init_states findTargets_states synchronizeReplication_states diff_spec)

lemma run_returns:
  assumes k: "0 < parallelDiffsCount w"
  shows "\<exists>w1 r. run e w = Some (w1, r)"
proof -
  obtain wa ra where i: "init e w = (wa, ra)" by (cases "init e w")
  show ?thesis
  proof (cases "ra = None \<and> checkDone e 1 = None")
    case False
    with i show ?thesis by (auto simp: run_def split: option.splits)
  next
    case True
    with i init_ready [of e w wa] obtain si ss where
      si: "shardInfo wa = Some si" "SourceShards si = [ss]" by auto
    have ka: "0 < parallelDiffsCount wa"
      using init_extends [OF i] k by (simp add: extends_def)
    from findTargets_returns [OF si, of e] obtain wb rb where
      f: "findTargets e wa = Some (wb, rb)" by blast
    show ?thesis
    proof (cases "rb = None \<and> checkDone e 2 = None")
      case False
      with i True f show ?thesis by (auto simp: run_def split: option.splits)
    next
      case b: True
      have sib: "shardInfo wb = Some si" and kb: "0 < parallelDiffsCount wb"
        using findTargets_states [OF f] findTargets_extends [OF f] si ka
        by (simp_all add: extends_def)
      from synchronizeReplication_returns [OF sib si(2), of e] obtain wc rc where
        s: "synchronizeReplication e wb = Some (wc, rc)" by blast
      show ?thesis
      proof (cases "rc = None \<and> checkDone e 3 = None")
        case False
        with i True f b s show ?thesis by (auto simp: run_def split: option.splits)
      next
        case c: True
        have sic: "shardInfo wc = Some si" and kc: "0 < parallelDiffsCount wc"
          using synchronizeReplication_states [OF s] synchronizeReplication_extends [OF s]
            sib kb by (simp_all add: extends_def)
        from diff_returns [OF sic si(2) kc, of e] obtain wd rd where
          d: "diff e wc = Some (wd, rd)" by blast
        with i True f b s c show ?thesis by (auto simp: run_def split: option.splits)
      qed
    qed
  qed
qed

lemma Run_run:
  assumes "run e w = Some (w1, r)"
  shows "\<exists>w' r'. Run e w = Some (w', r') \<and>
     r' = (case r of Some x \<Rightarrow> Some x | None \<Rightarrow> cleanUpError e w1) \<and>
     state w' = (if r' = None then WorkerStateDone else WorkerStateError) \<and>
     states w' = states w1 @ [WorkerStateCleanUp, state w'] \<and>
     cleanups w' = cleanups w1 @ [rev (cleaner w1)] \<and> cleaner w' = [] \<and>
     calls w' = calls w1 \<and>
     logs w' = logs w1 @
       (case (r, cleanUpError e w1) of
          (Some x, Some ce) \<Rightarrow> [LogErrorf2 ce ''CleanUp failed in addition to job error'']
        | _ \<Rightarrow> [])"
  using assms
  by (cases r; cases "cleanUpError e w1")
     (auto simp: Run_def CleanUp_def cleanUpError_def prims Let_def)

lemma cleanUpError_eq:
  "cleanUpError e w = recError (List.map_filter (cleanUpAction e) (rev (cleaner w)))"
  by (simp add: cleanUpError_def CleanUp_def prims Let_def)



lemma init_rejects:
  assumes "getShard e = Inr si"
    and "SourceShards si = [] \<or> \<not> HasPrimary si \<or>
         (\<exists>ss rest. SourceShards si = ss # rest \<and> Tables ss = [])"
  shows "\<exists>w1 err cs. init e w = (w1, Some err) \<and>
     (\<forall>ki. getKeyspace e = Inr ki \<longrightarrow> (\<exists>fmt args. err = Errorf fmt args)) \<and>
     calls w1 = calls w @ cs \<and>
     set (map fst cs) \<subseteq> {GetKeyspace (keyspace w), GetShard (keyspace w) (shard w)} \<and>
     cleaner w1 = cleaner w \<and> states w1 = states w @ [WorkerStateInit]"
  using assms
  by (cases "getKeyspace e")
     (auto simp: init_def Let_def prims split: list.splits)

lemma init_succeeds:
  assumes "getKeyspace e = Inr ki" "ServedFroms ki \<noteq> []" "getShard e = Inr si"
    "SourceShards si = [ss]" "Tables ss \<noteq> []" "HasPrimary si"
  shows "\<exists>w'. init e w = (w', None)"
  using assms by (simp add: init_def Let_def)

lemma findTargets_succeeds:
  assumes "\<not> isl (snd (findDestination e))" "\<not> isl (snd (findSource e))"
    "shardInfo w = Some si" "SourceShards si = ss # rest"
  shows "\<exists>w'. findTargets e w = Some (w', None)"
  using assms
  by (cases "snd (findDestination e)"; cases "snd (findSource e)")
     (simp_all add: findTargets_def Let_def prims)

lemma synchronizeReplication_succeeds:
  assumes "\<not> isl (getTabletPrimary e)" "stopVReplication e = None"
    "readVReplicationPos e = Inr [[pos]]"
    "\<not> isl (getTabletSource e)" "\<not> isl (stopReplicationSource e)"
    "startVReplicationUntil e = None" "waitForPos e = None"
    "\<not> isl (primaryPosition e)" "\<not> isl (getTabletDestination e)"
    "stopReplicationDestination e = None" "startVReplication e = None"
    "shardInfo w = Some si" "SourceShards si = ss # rest"
  shows "\<exists>w'. synchronizeReplication e w = Some (w', None)"
  using assms
  by (cases "getTabletPrimary e"; cases "getTabletSource e"; cases "stopReplicationSource e";
      cases "primaryPosition e"; cases "getTabletDestination e")
     (simp_all add: synchronizeReplication_def syncSteps_def syncStep1_def syncStep2_def
        syncStep3_def syncStep4_def syncStep5_def Let_def prims)

lemma goFailures_Cons:
  "goFailures e (td # tds) =
     (case differGo e td of Inl err \<Rightarrow> [LogErrorf2 err ''Differ.Go failed''] | Inr report \<Rightarrow> [])
       @ goFailures e tds"
  by (cases "differGo e td") (simp_all add: goFailures_def List.map_filter_simps)

lemma diffTable_quiet:
  assumes "quietTable e td"
  shows "\<exists>w'. diffTable e td (w, rec) = (w', rec) \<and> states w' = states w \<and>
     state w' = state w \<and> logs w' = logs w @ goFailures e [td]"
  using assms
  by (cases "differGo e td")
     (simp_all add: quietTable_def diffTable_def goFailures_def List.map_filter_simps
        Let_def prims)

lemma fold_diffTable_quiet:
  assumes "list_all (quietTable e) tds"
  shows "\<exists>w'. fold (diffTable e) tds (w, rec) = (w', rec) \<and> states w' = states w \<and>
     state w' = state w \<and> logs w' = logs w @ goFailures e tds"
  using assms
proof (induction tds arbitrary: w)
  case Nil
  show ?case by (simp add: goFailures_def List.map_filter_simps)
next
  case (Cons td tds)
  then have q: "quietTable e td" and qs: "list_all (quietTable e) tds" by simp_all
  from diffTable_quiet [OF q, of w rec] obtain w1 where
    1: "diffTable e td (w, rec) = (w1, rec)" "states w1 = states w" "state w1 = state w"
    "logs w1 = logs w @ goFailures e [td]" by blast
  from Cons.IH [OF qs, of w1] obtain w' where
    2: "fold (diffTable e) tds (w1, rec) = (w', rec)" "states w' = states w1"
    "state w' = state w1" "logs w' = logs w1 @ goFailures e tds" by blast
  have "goFailures e (td # tds) = goFailures e [td] @ goFailures e tds"
    by (simp add: goFailures_Cons [of e td tds] goFailures_Cons [of e td "[]"])
       (simp add: goFailures_def List.map_filter_simps)
  with 1 2 show ?case by simp
qed

lemma diff_quiet:
  assumes "getSchemaDestination e = Inr dsd" "getSchemaSource e = Inr ssd"
    "diffSchema e dsd ssd = []" "list_all (quietTable e) (TableDefinitions dsd)"
    "shardInfo w = Some si" "SourceShards si = ss # rest" "0 < parallelDiffsCount w"
  shows "\<exists>w'. diff e w = Some (w', None) \<and> states w' = states w @ [WorkerStateDiff] \<and>
     logs w' = logs w @ goFailures e (sort_key (goSchedule e) (TableDefinitions dsd))"
proof -
  let ?tds = "sort_key (goSchedule e) (TableDefinitions dsd)"
  have "set ?tds = set (TableDefinitions dsd)" by simp
  with assms(4) have q: "list_all (quietTable e) ?tds"
    by (simp add: list_all_iff)
  obtain w1 where f: "fetchSchemas e (Tables ss) (SetState WorkerStateDiff w) = (w1, [])"
    "destinationSchemaDefinition w1 = Some dsd" "sourceSchemaDefinition w1 = Some ssd"
    "states w1 = states w @ [WorkerStateDiff]" "logs w1 = logs w"
    "parallelDiffsCount w1 = parallelDiffsCount w"
    using assms(1,2)
    by (cases "destinationFetchFirst e")
       (simp_all add: fetchSchemas_def fetchDestinationSchema_def fetchSourceSchema_def prims)
  let ?w3 = "called (DiffSchema dsd ssd) True w1"
  from fold_diffTable_quiet [OF q, of ?w3 "[]"] obtain w' where
    2: "fold (diffTable e) ?tds (?w3, []) = (w', [])" "states w' = states ?w3"
    "logs w' = logs ?w3 @ goFailures e ?tds" by blast
  have "diff e w = Some (w', None)"
    using assms(3,5,6,7) f 2(1)
    by (simp add: diff_def diffTables_def Let_def HasErrors_def recError_def prims)
  moreover have "states w' = states w @ [WorkerStateDiff]"
    "logs w' = logs w @ goFailures e ?tds"
    using 2(2,3) f(4,5) by (simp_all add: prims)
  ultimately show ?thesis by blast
qed

lemma cleanUpError_none: "\<forall>a. cleanUpAction e a = None \<Longrightarrow> cleanUpError e w = None"
  by (simp add: cleanUpError_eq List.map_filter_def recError_def)




lemma diffTable_go_error:
  assumes "tableScanSource e td = None" "tableScanDestination e td = None"
    "newRowDiffer e td = None" "differGo e td = Inl err"
  shows "\<exists>w'. diffTable e td (w, rec) = (w', rec) \<and> state w' = state w \<and>
     states w' = states w \<and> logs w' = logs w @ [LogErrorf2 err ''Differ.Go failed'']"
  using assms by (simp add: diffTable_def Let_def prims)

lemma Run_quiet:
  assumes q: "quietExceptGo e" and k: "0 < parallelDiffsCount w"
    and d: "getSchemaDestination e = Inr dsd"
  shows "\<exists>w'. Run e w = Some (w', None) \<and> state w' = WorkerStateDone \<and>
     states w' = states w @ [WorkerStateInit, WorkerStateFindTargets,
       WorkerStateSyncReplication, WorkerStateDiff, WorkerStateCleanUp, WorkerStateDone] \<and>
     logs w' = logs w @ goFailures e (sort_key (goSchedule e) (TableDefinitions dsd))"
proof -
  from q obtain ki si ss pos ssd where
    ks: "getKeyspace e = Inr ki" "ServedFroms ki \<noteq> []"
    and sh: "getShard e = Inr si" "SourceShards si = [ss]" "Tables ss \<noteq> []" "HasPrimary si"
    and pos: "readVReplicationPos e = Inr [[pos]]"
    and sc: "getSchemaSource e = Inr ssd" "diffSchema e dsd ssd = []"
      "list_all (quietTable e) (TableDefinitions dsd)"
    using d unfolding quietExceptGo_def by auto
  from q have cd: "\<And>n. checkDone e n = None" and cu: "\<forall>a. cleanUpAction e a = None"
    and ft: "\<not> isl (snd (findDestination e))" "\<not> isl (snd (findSource e))"
    and sy: "\<not> isl (getTabletPrimary e)" "stopVReplication e = None"
      "\<not> isl (getTabletSource e)" "\<not> isl (stopReplicationSource e)"
      "startVReplicationUntil e = None" "waitForPos e = None"
      "\<not> isl (primaryPosition e)" "\<not> isl (getTabletDestination e)"
      "stopReplicationDestination e = None" "startVReplication e = None"
    unfolding quietExceptGo_def by simp_all
  from init_succeeds [OF ks sh, of w] obtain wa where a: "init e w = (wa, None)" by blast
  from init_ready [OF a] sh(2) obtain sia ssa where
    sia: "shardInfo wa = Some sia" "SourceShards sia = [ssa]" by blast
  have a': "states wa = states w @ [WorkerStateInit]" "logs wa = logs w"
    "parallelDiffsCount wa = parallelDiffsCount w"
    using init_states [OF a] init_extends [OF a] by (simp_all add: extends_def)
  from findTargets_succeeds [OF ft sia] obtain wb where
    b: "findTargets e wa = Some (wb, None)" by blast
  have b': "states wb = states wa @ [WorkerStateFindTargets]" "logs wb = logs wa"
    "parallelDiffsCount wb = parallelDiffsCount wa" "shardInfo wb = Some sia"
    using findTargets_states [OF b] findTargets_extends [OF b] sia
    by (simp_all add: extends_def)
  from synchronizeReplication_succeeds
    [OF sy(1,2) pos sy(3,4,5,6,7,8,9,10) b'(4) sia(2)] obtain wc where
    c: "synchronizeReplication e wb = Some (wc, None)" by blast
  have c': "states wc = states wb @ [WorkerStateSyncReplication]" "logs wc = logs wb"
    "parallelDiffsCount wc = parallelDiffsCount wb" "shardInfo wc = Some sia"
    using synchronizeReplication_states [OF c] synchronizeReplication_extends [OF c] b'(4)
    by (simp_all add: extends_def)
  have kc: "0 < parallelDiffsCount wc"
    using k a'(3) b'(3) c'(3) by simp
  from diff_quiet [OF d sc c'(4) sia(2) kc] obtain wd where
    dd: "diff e wc = Some (wd, None)" "states wd = states wc @ [WorkerStateDiff]"
    "logs wd = logs wc @ goFailures e (sort_key (goSchedule e) (TableDefinitions dsd))"
    by blast
  have r: "run e w = Some (wd, None)"
    using a b c dd(1) cd by (simp add: run_def)
  from Run_run [OF r] cleanUpError_none [OF cu, of wd] obtain w' where
    f: "Run e w = Some (w', None)" "state w' = WorkerStateDone"
    "states w' = states wd @ [WorkerStateCleanUp, state w']" "logs w' = logs wd"
    by auto
  have "states w' = states w @ [WorkerStateInit, WorkerStateFindTargets,
       WorkerStateSyncReplication, WorkerStateDiff, WorkerStateCleanUp, WorkerStateDone]"
    using f(2,3) dd(2) c'(1) b'(1) a'(1) by simp
  moreover have "logs w' = logs w @ goFailures e (sort_key (goSchedule e) (TableDefinitions dsd))"
    using f(4) dd(3) c'(2) b'(2) a'(2) by simp
  ultimately show ?thesis
    using f(1,2) by blast
qed

section \<open>Evaluating concrete runs\<close>

lemmas model_defs = Run_def run_def init_def findTargets_def synchronizeReplication_def
  syncSteps_def syncStep1_def syncStep2_def syncStep3_def syncStep4_def syncStep5_def diff_def
  diffTable_def diffTables_def fetchSchemas_def fetchDestinationSchema_def
  fetchSourceSchema_def CleanUp_def SetState_def called_def logged_def Record_def
  HasErrors_def recError_def HasPrimary_def HasDifferences_def List.map_filter_def
  cleanUpError_def markAsWillFail_def RecordError_def Let_def

lemmas input_defs = envOK_def w0_def wReady_def t1_def t2_def tabP_def tabS_def tabD_def

section \<open>The claims\<close>

text \<open>
  C1, as amended. Whenever the main run returns, \<open>Run\<close> returns too, and the terminal state is
  Done exactly when neither the main run nor the cleanup returned an error, and Error
  otherwise. Whenever the will-fail state was set during the run, the diff phase returned an
  error, so the terminal state is Error: the will-fail state is visible while the diff
  phase runs and is never the terminal state.
\<close>

theorem C1_terminal_state:
  "(0 < parallelDiffsCount w \<longrightarrow> run e w \<noteq> None) \<and>
   (run e w \<noteq> None \<longrightarrow>
      (\<exists>w1 r w' r' tr.
         run e w = Some (w1, r) \<and> Run e w = Some (w', r') \<and>
         state w' = (if r = None \<and> cleanUpError e w1 = None
                     then WorkerStateDone else WorkerStateError) \<and>
         states w1 = states w @ tr \<and>
         (WorkerStateDiffWillFail \<in> set tr \<longrightarrow> r \<noteq> None \<and> state w' = WorkerStateError)))"
proof (intro conjI impI)
  assume "0 < parallelDiffsCount w"
  then show "run e w \<noteq> None"
    using run_returns [of w e] by auto
next
  assume "run e w \<noteq> None"
  then obtain w1 r where r: "run e w = Some (w1, r)" by auto
  from run_states [OF r] obtain tr where
    1: "states w1 = states w @ tr" "WorkerStateDiffWillFail \<in> set tr \<longrightarrow> r \<noteq> None"
    by auto
  from Run_run [OF r] obtain w' r' where
    2: "Run e w = Some (w', r')"
    "r' = (case r of Some x \<Rightarrow> Some x | None \<Rightarrow> cleanUpError e w1)"
    "state w' = (if r' = None then WorkerStateDone else WorkerStateError)"
    by blast
  have 3: "state w' = (if r = None \<and> cleanUpError e w1 = None
                     then WorkerStateDone else WorkerStateError)"
    using 2(2,3) by (cases r) auto
  then have "WorkerStateDiffWillFail \<in> set tr \<longrightarrow> r \<noteq> None \<and> state w' = WorkerStateError"
    using 1(2) by auto
  with r 1(1) 2(1) 3 show "\<exists>w1 r w' r' tr.
         run e w = Some (w1, r) \<and> Run e w = Some (w', r') \<and>
         state w' = (if r = None \<and> cleanUpError e w1 = None
                     then WorkerStateDone else WorkerStateError) \<and>
         states w1 = states w @ tr \<and>
         (WorkerStateDiffWillFail \<in> set tr \<longrightarrow> r \<noteq> None \<and> state w' = WorkerStateError)"
    by blast
qed

text \<open>Witness for C1: the main run succeeds, one compensation fails, the state ends in
  Error; with no failure at all it ends in Done.\<close>

theorem C1_terminal_state_witness:
  "0 < parallelDiffsCount w0 \<and> run envCleanupFails w0 \<noteq> None \<and>
   map_option snd (run envCleanupFails w0) = Some None \<and>
   map_option (state \<circ> fst) (Run envCleanupFails w0) = Some WorkerStateError \<and>
   map_option (state \<circ> fst) (Run envOK w0) = Some WorkerStateDone"
proof -
  have h1: "0 < parallelDiffsCount w0"
    by (simp add: w0_def)
  have h2: "run envCleanupFails w0 \<noteq> None"
    using C1_terminal_state [of w0 envCleanupFails] h1 by blast
  have "map_option snd (run envCleanupFails w0) = Some None \<and>
   map_option (state \<circ> fst) (Run envCleanupFails w0) = Some WorkerStateError \<and>
   map_option (state \<circ> fst) (Run envOK w0) = Some WorkerStateDone"
    by (simp add: model_defs input_defs envCleanupFails_def)
  with h1 h2 show ?thesis
    by blast
qed

text \<open>Counterexample to C1 as stated: differences are found, the will-fail state is set, the
  cleanup succeeds, and the terminal state is Error, not the will-fail state.\<close>

theorem C1_will_fail_not_terminal_counterexample:
  "map_option (states \<circ> fst) (Run envDifferences w0) =
     Some [WorkerStateInit, WorkerStateFindTargets, WorkerStateSyncReplication, WorkerStateDiff,
           WorkerStateDiffWillFail, WorkerStateCleanUp, WorkerStateError] \<and>
   map_option (cleanUpError envDifferences \<circ> fst) (run envDifferences w0) = Some None \<and>
   map_option (state \<circ> fst) (Run envDifferences w0) = Some WorkerStateError \<and>
   map_option (state \<circ> fst) (Run envDifferences w0) \<noteq> Some WorkerStateDiffWillFail"
  by (simp add: model_defs input_defs envDifferences_def)

text \<open>
  C2, as amended. \<open>Run\<close> returns the error of the main run when there is one (the cleanup
  error is then only logged) and the cleanup error otherwise. In either case the cleaner
  attempts every registered action, in reverse order, and its error combines the errors of
  all the actions that failed.
\<close>

theorem C2_returned_error:
  "(0 < parallelDiffsCount w \<longrightarrow> run e w \<noteq> None) \<and>
   (run e w \<noteq> None \<longrightarrow>
      (\<exists>w1 r w' r'.
         run e w = Some (w1, r) \<and> Run e w = Some (w', r') \<and>
         r' = (case r of Some x \<Rightarrow> Some x | None \<Rightarrow> cleanUpError e w1) \<and>
         (\<forall>ce. r \<noteq> None \<and> cleanUpError e w1 = Some ce \<longrightarrow>
            logs w' = logs w1 @ [LogErrorf2 ce ''CleanUp failed in addition to job error'']) \<and>
         cleanups w' = cleanups w1 @ [rev (cleaner w1)] \<and>
         cleanUpError e w1 =
           recError (List.map_filter (cleanUpAction e) (rev (cleaner w1)))))"
proof (intro conjI impI)
  assume "0 < parallelDiffsCount w"
  then show "run e w \<noteq> None"
    using run_returns [of w e] by auto
next
  assume "run e w \<noteq> None"
  then obtain w1 r where r: "run e w = Some (w1, r)" by auto
  from Run_run [OF r] obtain w' r' where
    2: "Run e w = Some (w', r')"
    "r' = (case r of Some x \<Rightarrow> Some x | None \<Rightarrow> cleanUpError e w1)"
    "cleanups w' = cleanups w1 @ [rev (cleaner w1)]"
    "logs w' = logs w1 @
       (case (r, cleanUpError e w1) of
          (Some x, Some ce) \<Rightarrow> [LogErrorf2 ce ''CleanUp failed in addition to job error'']
        | _ \<Rightarrow> [])"
    by blast
  have "\<forall>ce. r \<noteq> None \<and> cleanUpError e w1 = Some ce \<longrightarrow>
            logs w' = logs w1 @ [LogErrorf2 ce ''CleanUp failed in addition to job error'']"
    using 2(4) by auto
  with r 2(1,2,3) cleanUpError_eq [of e w1] show "\<exists>w1 r w' r'.
         run e w = Some (w1, r) \<and> Run e w = Some (w', r') \<and>
         r' = (case r of Some x \<Rightarrow> Some x | None \<Rightarrow> cleanUpError e w1) \<and>
         (\<forall>ce. r \<noteq> None \<and> cleanUpError e w1 = Some ce \<longrightarrow>
            logs w' = logs w1 @ [LogErrorf2 ce ''CleanUp failed in addition to job error'']) \<and>
         cleanups w' = cleanups w1 @ [rev (cleaner w1)] \<and>
         cleanUpError e w1 =
           recError (List.map_filter (cleanUpAction e) (rev (cleaner w1)))"
    by blast
qed

text \<open>Witness for C2: only the cleanup fails, and its error is what \<open>Run\<close> returns; all five
  registered actions were attempted although the second one failed.\<close>

theorem C2_returned_error_witness:
  "0 < parallelDiffsCount w0 \<and> run envCleanupFails w0 \<noteq> None \<and>
   map_option snd (Run envCleanupFails w0) =
     Some (Some (Aggregate [External ''tablet unreachable''])) \<and>
   map_option (cleanups \<circ> fst) (Run envCleanupFails w0) =
     Some [[StartReplicationAction tabD, StartReplicationAction tabS,
            VReplicationAction tabP (StartVReplication 1),
            ChangeTabletTypeAction (TabletAlias ''zone1'' 201) RDONLY,
            ChangeTabletTypeAction (TabletAlias ''zone1'' 102) RDONLY]]"
proof -
  have h1: "0 < parallelDiffsCount w0"
    by (simp add: w0_def)
  have h2: "run envCleanupFails w0 \<noteq> None"
    using C2_returned_error [of w0 envCleanupFails] h1 by blast
  have "map_option snd (Run envCleanupFails w0) =
     Some (Some (Aggregate [External ''tablet unreachable''])) \<and>
   map_option (cleanups \<circ> fst) (Run envCleanupFails w0) =
     Some [[StartReplicationAction tabD, StartReplicationAction tabS,
            VReplicationAction tabP (StartVReplication 1),
            ChangeTabletTypeAction (TabletAlias ''zone1'' 201) RDONLY,
            ChangeTabletTypeAction (TabletAlias ''zone1'' 102) RDONLY]]"
    by (simp add: model_defs input_defs envCleanupFails_def)
  with h1 h2 show ?thesis
    by blast
qed

text \<open>Counterexample to C2 as stated: the main run and the cleanup both fail, and \<open>Run\<close>
  returns the error of the main run unchanged; the cleanup error appears in the log only.\<close>

theorem C2_cleanup_error_dropped_counterexample:
  "map_option snd (run envBothFail w0) =
     Some (Some (Wrap (Wrapf (External ''rpc deadline exceeded'')
                         ''VReplicationExec(start) failed for %v''
                         [FAlias (Some (TabletAlias ''zone1'' 100))])
                   ''synchronizeReplication() failed'')) \<and>
   map_option (logs \<circ> fst) (Run envBothFail w0) =
     Some [LogErrorf2 (Aggregate [External ''tablet unreachable''])
             ''CleanUp failed in addition to job error''] \<and>
   map_option snd (Run envBothFail w0) = map_option snd (run envBothFail w0)"
  by (simp add: model_defs input_defs envBothFail_def)

text \<open>
  C3, as amended. In the diff phase both schema fetches are made and waited for. If either
  returns an error, the state is set to will-fail, the errors are recorded, and the phase
  returns them at once: the only calls it made are the two fetches, so neither the schema
  comparison nor any per-table row diff is run.
\<close>

theorem C3_fetch_error_aborts_diff:
  assumes "shardInfo w = Some si" and "SourceShards si = ss # rest"
    and "isl (getSchemaDestination e) \<or> isl (getSchemaSource e)"
  shows "\<exists>w' errs cs.
     diff e w = Some (w', Some (Aggregate errs)) \<and> errs \<noteq> [] \<and>
     set errs = {err. getSchemaDestination e = Inl err} \<union> {err. getSchemaSource e = Inl err} \<and>
     state w' = WorkerStateDiffWillFail \<and>
     calls w' = calls w @ cs \<and>
     (map fst cs = [GetSchema (destinationAlias w) (Tables ss),
                    GetSchema (sourceAlias w) (Tables ss)] \<or>
      map fst cs = [GetSchema (sourceAlias w) (Tables ss),
                    GetSchema (destinationAlias w) (Tables ss)])"
  using assms
  by (cases "getSchemaDestination e"; cases "getSchemaSource e"; cases "destinationFetchFirst e")
     (auto simp: diff_def fetchSchemas_def fetchDestinationSchema_def fetchSourceSchema_def
        HasErrors_def recError_def prims Let_def)

text \<open>Witness for C3: the fetch from the source fails; the phase returns that error after
  the two fetches.\<close>

theorem C3_fetch_error_aborts_diff_witness:
  "shardInfo wReady =
     Some \<lparr>PrimaryAlias = Some (TabletAlias ''zone1'' 100),
           SourceShards = [\<lparr>Uid = 1, Keyspace = ''src'', Shard = ''0'',
                            Tables = [''orders'']\<rparr>]\<rparr> \<and>
   isl (getSchemaSource envFetchFails) \<and>
   map_option snd (diff envFetchFails wReady) =
     Some (Some (Aggregate [External ''schema unavailable''])) \<and>
   map_option (calls \<circ> fst) (diff envFetchFails wReady) =
     Some [(GetSchema (Some (TabletAlias ''zone1'' 102)) [''orders''], True),
           (GetSchema (Some (TabletAlias ''zone1'' 201)) [''orders''], False)]"
proof -
  have h1: "shardInfo wReady =
     Some \<lparr>PrimaryAlias = Some (TabletAlias ''zone1'' 100),
           SourceShards = [\<lparr>Uid = 1, Keyspace = ''src'', Shard = ''0'',
                            Tables = [''orders'']\<rparr>]\<rparr>"
    by (simp add: wReady_def w0_def)
  have h2: "SourceShards \<lparr>PrimaryAlias = Some (TabletAlias ''zone1'' 100),
           SourceShards = [\<lparr>Uid = 1, Keyspace = ''src'', Shard = ''0'',
                            Tables = [''orders'']\<rparr>]\<rparr> =
     \<lparr>Uid = 1, Keyspace = ''src'', Shard = ''0'', Tables = [''orders'']\<rparr> # []"
    by simp
  have h3: "isl (getSchemaSource envFetchFails)"
    by (simp add: envFetchFails_def envOK_def)
  then have h3': "isl (getSchemaDestination envFetchFails) \<or> isl (getSchemaSource envFetchFails)"
    by simp
  from C3_fetch_error_aborts_diff [OF h1 h2 h3'] obtain w' errs cs where
    1: "diff envFetchFails wReady = Some (w', Some (Aggregate errs))"
    "set errs = {err. getSchemaDestination envFetchFails = Inl err} \<union>
                {err. getSchemaSource envFetchFails = Inl err}"
    by (elim exE conjE) (rule that)
  have "map_option snd (diff envFetchFails wReady) =
     Some (Some (Aggregate [External ''schema unavailable'']))"
    "map_option (calls \<circ> fst) (diff envFetchFails wReady) =
     Some [(GetSchema (Some (TabletAlias ''zone1'' 102)) [''orders''], True),
           (GetSchema (Some (TabletAlias ''zone1'' 201)) [''orders''], False)]"
    by (simp_all add: model_defs input_defs envFetchFails_def wReady_def)
  with h1 h3 1 show ?thesis
    by simp
qed

text \<open>Counterexample to C3 as stated: with the fetch from the source failing, the run is
  flagged as will-fail and no comparison call is made at all, while the same run with a
  working fetch makes five.\<close>

theorem C3_comparisons_skipped_counterexample:
  "isl (getSchemaSource envFetchFails) \<and>
   map_option (states \<circ> fst) (Run envFetchFails w0) =
     Some [WorkerStateInit, WorkerStateFindTargets, WorkerStateSyncReplication, WorkerStateDiff,
           WorkerStateDiffWillFail, WorkerStateCleanUp, WorkerStateError] \<and>
   map_option (filter (comparisonCall \<circ> fst) \<circ> calls \<circ> fst) (Run envFetchFails w0) = Some [] \<and>
   map_option (filter (comparisonCall \<circ> fst) \<circ> calls \<circ> fst) (Run envOK w0) =
     Some [(DiffSchema \<lparr>TableDefinitions = [t1]\<rparr> \<lparr>TableDefinitions = [t1]\<rparr>, True),
           (TableScan (Some (TabletAlias ''zone1'' 201)) t1, True),
           (TableScan (Some (TabletAlias ''zone1'' 102)) t1, True),
           (NewRowDiffer t1, True), (DifferGo t1, True)]"
  by (simp add: model_defs input_defs envFetchFails_def)

text \<open>
  C4. Whatever the main run returns (success, an error of a phase, a cancellation seen between
  two phases), no cleanup runs during it, and \<open>Run\<close> then sets the state CleanUp and runs
  the cleaner exactly once, on all the actions registered so far, in reverse registration
  order, before it sets the terminal state and returns.
\<close>

theorem C4_cleanup_exactly_once:
  "(0 < parallelDiffsCount w \<longrightarrow> run e w \<noteq> None) \<and>
   (run e w \<noteq> None \<longrightarrow>
      (\<exists>w1 r w' r' acts fin.
         run e w = Some (w1, r) \<and> Run e w = Some (w', r') \<and>
         cleanups w1 = cleanups w \<and> cleaner w1 = cleaner w @ acts \<and>
         cleanups w' = cleanups w @ [rev (cleaner w @ acts)] \<and> cleaner w' = [] \<and>
         states w' = states w1 @ [WorkerStateCleanUp, fin]))"
proof (intro conjI impI)
  assume "0 < parallelDiffsCount w"
  then show "run e w \<noteq> None"
    using run_returns [of w e] by auto
next
  assume "run e w \<noteq> None"
  then obtain w1 r where r: "run e w = Some (w1, r)" by auto
  from run_extends [OF r] obtain acts where
    1: "cleanups w1 = cleanups w" "cleaner w1 = cleaner w @ acts"
    by (auto simp: extends_def)
  from Run_run [OF r] obtain w' r' where
    2: "Run e w = Some (w', r')" "states w' = states w1 @ [WorkerStateCleanUp, state w']"
    "cleanups w' = cleanups w1 @ [rev (cleaner w1)]" "cleaner w' = []"
    by blast
  show "\<exists>w1 r w' r' acts fin.
         run e w = Some (w1, r) \<and> Run e w = Some (w', r') \<and>
         cleanups w1 = cleanups w \<and> cleaner w1 = cleaner w @ acts \<and>
         cleanups w' = cleanups w @ [rev (cleaner w @ acts)] \<and> cleaner w' = [] \<and>
         states w' = states w1 @ [WorkerStateCleanUp, fin]"
    using r 1 2 by (intro exI [of _ w1] exI [of _ r] exI [of _ w'] exI [of _ r']
        exI [of _ acts] exI [of _ "state w'"]) simp
qed

text \<open>Witness for C4: the run is cancelled after the synchronization; the five actions
  registered by then are executed once, last registered first.\<close>

theorem C4_cleanup_exactly_once_witness:
  "0 < parallelDiffsCount w0 \<and> run envCancelled w0 \<noteq> None \<and>
   map_option snd (Run envCancelled w0) = Some (Some (External ''context canceled'')) \<and>
   map_option (cleanups \<circ> fst) (Run envCancelled w0) =
     Some [[StartReplicationAction tabD, StartReplicationAction tabS,
            VReplicationAction tabP (StartVReplication 1),
            ChangeTabletTypeAction (TabletAlias ''zone1'' 201) RDONLY,
            ChangeTabletTypeAction (TabletAlias ''zone1'' 102) RDONLY]]"
proof -
  have h1: "0 < parallelDiffsCount w0"
    by (simp add: w0_def)
  have h2: "run envCancelled w0 \<noteq> None"
    using C4_cleanup_exactly_once [of w0 envCancelled] h1 by blast
  have "map_option snd (Run envCancelled w0) = Some (Some (External ''context canceled'')) \<and>
   map_option (cleanups \<circ> fst) (Run envCancelled w0) =
     Some [[StartReplicationAction tabD, StartReplicationAction tabS,
            VReplicationAction tabP (StartVReplication 1),
            ChangeTabletTypeAction (TabletAlias ''zone1'' 201) RDONLY,
            ChangeTabletTypeAction (TabletAlias ''zone1'' 102) RDONLY]]"
    by (simp add: model_defs input_defs envCancelled_def)
  with h1 h2 show ?thesis
    by blast
qed

text \<open>
  C5. The synchronization phase returns once the shard record is there, and however it returns
  (success or an error at any step), every call of it that stopped a replication and
  succeeded has its restart among the actions the phase appended to the cleaner. So for
  every run that returns, the actions the cleaner executes include the inverse of every
  such call the run made.
\<close>

theorem C5_mutations_register_inverse:
  "((\<exists>si ss rest. shardInfo w = Some si \<and> SourceShards si = ss # rest) \<longrightarrow>
      synchronizeReplication e w \<noteq> None) \<and>
   (synchronizeReplication e w \<noteq> None \<longrightarrow>
      (\<exists>w' r cs acts. synchronizeReplication e w = Some (w', r) \<and>
         calls w' = calls w @ cs \<and> cleaner w' = cleaner w @ acts \<and> covered cs acts)) \<and>
   (run e w \<noteq> None \<longrightarrow>
      (\<exists>w' r' cs acts. Run e w = Some (w', r') \<and> calls w' = calls w @ cs \<and>
         cleanups w' = cleanups w @ [rev (cleaner w @ acts)] \<and> covered cs acts))"
proof (intro conjI impI)
  assume "\<exists>si ss rest. shardInfo w = Some si \<and> SourceShards si = ss # rest"
  then show "synchronizeReplication e w \<noteq> None"
    using synchronizeReplication_returns [of w _ _ _ e] by fastforce
next
  assume "synchronizeReplication e w \<noteq> None"
  then obtain w' r where s: "synchronizeReplication e w = Some (w', r)" by auto
  from synchronizeReplication_extends [OF s] s
  show "\<exists>w' r cs acts. synchronizeReplication e w = Some (w', r) \<and>
         calls w' = calls w @ cs \<and> cleaner w' = cleaner w @ acts \<and> covered cs acts"
    by (auto simp: extends_def)
next
  assume "run e w \<noteq> None"
  then obtain w1 r where r: "run e w = Some (w1, r)" by auto
  from run_extends [OF r] obtain cs acts where
    1: "cleanups w1 = cleanups w" "calls w1 = calls w @ cs" "cleaner w1 = cleaner w @ acts"
    "covered cs acts"
    by (auto simp: extends_def)
  from Run_run [OF r] obtain w' r' where
    2: "Run e w = Some (w', r')" "cleanups w' = cleanups w1 @ [rev (cleaner w1)]"
    "calls w' = calls w1"
    by blast
  from 1 2 show "\<exists>w' r' cs acts. Run e w = Some (w', r') \<and> calls w' = calls w @ cs \<and>
         cleanups w' = cleanups w @ [rev (cleaner w @ acts)] \<and> covered cs acts"
    by auto
qed

text \<open>Witness for C5: step 3 fails after the primary's filtered replication and the source
  tablet were stopped; the cleaner restarts both.\<close>

theorem C5_mutations_register_inverse_witness:
  "run envWaitFails w0 \<noteq> None \<and>
   map_option snd (Run envWaitFails w0) =
     Some (Some (Wrap (Wrapf (External ''rpc deadline exceeded'')
                         ''VReplicationWaitForPos for %v until %v failed''
                         [FAlias (Some (TabletAlias ''zone1'' 100)), FStr ''pos2''])
                   ''synchronizeReplication() failed'')) \<and>
   map_option (filter stopsReplication \<circ> calls \<circ> fst) (Run envWaitFails w0) =
     Some [(VReplicationExec tabP (StopVReplication 1 ''for split diff''), True),
           (StopReplicationMinimum tabS ''pos1'', True)] \<and>
   map_option (cleanups \<circ> fst) (Run envWaitFails w0) =
     Some [[StartReplicationAction tabS, VReplicationAction tabP (StartVReplication 1),
            ChangeTabletTypeAction (TabletAlias ''zone1'' 201) RDONLY,
            ChangeTabletTypeAction (TabletAlias ''zone1'' 102) RDONLY]]"
proof -
  have c: "map_option snd (Run envWaitFails w0) =
     Some (Some (Wrap (Wrapf (External ''rpc deadline exceeded'')
                         ''VReplicationWaitForPos for %v until %v failed''
                         [FAlias (Some (TabletAlias ''zone1'' 100)), FStr ''pos2''])
                   ''synchronizeReplication() failed''))"
   "map_option (filter stopsReplication \<circ> calls \<circ> fst) (Run envWaitFails w0) =
     Some [(VReplicationExec tabP (StopVReplication 1 ''for split diff''), True),
           (StopReplicationMinimum tabS ''pos1'', True)]"
   "map_option (cleanups \<circ> fst) (Run envWaitFails w0) =
     Some [[StartReplicationAction tabS, VReplicationAction tabP (StartVReplication 1),
            ChangeTabletTypeAction (TabletAlias ''zone1'' 201) RDONLY,
            ChangeTabletTypeAction (TabletAlias ''zone1'' 102) RDONLY]]"
    by (simp_all add: model_defs input_defs envWaitFails_def stopsReplication_def)
  then have "Run envWaitFails w0 \<noteq> None"
    by auto
  have h: "run envWaitFails w0 \<noteq> None"
  proof
    assume "run envWaitFails w0 = None"
    then have "Run envWaitFails w0 = None" by (simp add: Run_def)
    with \<open>Run envWaitFails w0 \<noteq> None\<close> show False by simp
  qed
  from C5_mutations_register_inverse [of w0 envWaitFails] h
  obtain w' r' cs acts where "Run envWaitFails w0 = Some (w', r')"
    "cleanups w' = cleanups w0 @ [rev (cleaner w0 @ acts)]" "covered cs acts"
    by blast
  with h c show ?thesis
    by simp
qed

text \<open>
  C6. When the shard record read by init declares no source shard, has no primary, or its
  source shard declares no tables, init returns an error, which is an error built by init
  itself whenever the keyspace could be read; \<open>run\<close> wraps it and returns before
  findTargets; the only calls made are the two reads of the topology, nothing is registered
  with the cleaner, and \<open>Run\<close> goes from Init to CleanUp to Error.
\<close>

theorem C6_init_rejects_incomplete_shard:
  assumes "getShard e = Inr si"
    and "SourceShards si = [] \<or> \<not> HasPrimary si \<or>
         (\<exists>ss rest. SourceShards si = ss # rest \<and> Tables ss = [])"
  shows "\<exists>w1 err w' cs.
     init e w = (w1, Some err) \<and>
     (\<forall>ki. getKeyspace e = Inr ki \<longrightarrow> (\<exists>fmt args. err = Errorf fmt args)) \<and>
     run e w = Some (w1, Some (Wrap err ''init() failed'')) \<and>
     Run e w = Some (w', Some (Wrap err ''init() failed'')) \<and>
     states w' = states w @ [WorkerStateInit, WorkerStateCleanUp, WorkerStateError] \<and>
     calls w' = calls w @ cs \<and>
     set (map fst cs) \<subseteq> {GetKeyspace (keyspace w), GetShard (keyspace w) (shard w)} \<and>
     cleaner w1 = cleaner w \<and> cleanups w' = cleanups w @ [rev (cleaner w)]"
proof -
  from init_rejects [OF assms, of w] obtain w1 err cs where
    1: "init e w = (w1, Some err)"
    "\<forall>ki. getKeyspace e = Inr ki \<longrightarrow> (\<exists>fmt args. err = Errorf fmt args)"
    "calls w1 = calls w @ cs"
    "set (map fst cs) \<subseteq> {GetKeyspace (keyspace w), GetShard (keyspace w) (shard w)}"
    "cleaner w1 = cleaner w" "states w1 = states w @ [WorkerStateInit]"
    by (elim exE conjE) (rule that)
  have r: "run e w = Some (w1, Some (Wrap err ''init() failed''))"
    using 1(1) by (simp add: run_def)
  have c: "cleanups w1 = cleanups w"
    using init_extends [OF 1(1)] by (simp add: extends_def)
  from Run_run [OF r] obtain w' r' where
    2: "Run e w = Some (w', r')" "r' = Some (Wrap err ''init() failed'')"
    "state w' = (if r' = None then WorkerStateDone else WorkerStateError)"
    "states w' = states w1 @ [WorkerStateCleanUp, state w']"
    "cleanups w' = cleanups w1 @ [rev (cleaner w1)]" "calls w' = calls w1"
    by auto
  have "states w' = states w @ [WorkerStateInit, WorkerStateCleanUp, WorkerStateError]"
    using 1(6) 2(2,3,4) by simp
  moreover have "calls w' = calls w @ cs" "cleanups w' = cleanups w @ [rev (cleaner w)]"
    using 1(3,5) 2(5,6) c by simp_all
  ultimately show ?thesis
    using 1(1,2,4,5) r 2(1,2) by blast
qed

text \<open>Witness for C6: a shard record without source shards.\<close>

theorem C6_init_rejects_incomplete_shard_witness:
  "getShard envNoSources =
     Inr \<lparr>PrimaryAlias = Some (TabletAlias ''zone1'' 100), SourceShards = []\<rparr> \<and>
   map_option snd (Run envNoSources w0) =
     Some (Some (Wrap (Errorf ''shard %v/%v has bad number of source shards''
                         [FStr ''dest'', FStr ''0''])
                   ''init() failed'')) \<and>
   map_option (calls \<circ> fst) (Run envNoSources w0) =
     Some [(GetKeyspace ''dest'', True), (GetShard ''dest'' ''0'', True)]"
proof -
  have h: "getShard envNoSources =
     Inr \<lparr>PrimaryAlias = Some (TabletAlias ''zone1'' 100), SourceShards = []\<rparr>"
    by (simp add: envNoSources_def envOK_def)
  from C6_init_rejects_incomplete_shard [OF h, of w0]
  obtain w1 err w' cs where
    1: "init envNoSources w0 = (w1, Some err)"
    "Run envNoSources w0 = Some (w', Some (Wrap err ''init() failed''))"
    "calls w' = calls w0 @ cs"
    "set (map fst cs) \<subseteq> {GetKeyspace (keyspace w0), GetShard (keyspace w0) (shard w0)}"
    by auto
  have e: "snd (init envNoSources w0) =
     Some (Errorf ''shard %v/%v has bad number of source shards'' [FStr ''dest'', FStr ''0''])"
    by (simp add: model_defs input_defs envNoSources_def)
  have c: "map_option (calls \<circ> fst) (Run envNoSources w0) =
     Some [(GetKeyspace ''dest'', True), (GetShard ''dest'' ''0'', True)]"
    by (simp add: model_defs input_defs envNoSources_def)
  from 1(1,2) e h c show ?thesis
    by simp
qed



text \<open>
  C9. When the scans and the row differ of a table are set up and the differ's \<^verbatim>\<open>Go\<close>
  returns an error, the table's goroutine writes one line to the log and leaves the
  recorder and the state as they were. So in an environment in which every other call
  succeeds, the schemas match and no table has differences, \<open>Run\<close> returns no error and
  ends in Done without ever setting the will-fail state, whatever tables \<^verbatim>\<open>Go\<close> failed
  for; their errors are in the log and nowhere else.
\<close>

theorem C9_differ_go_error_only_logged:
  "(\<forall>td err w1 rec.
      tableScanSource e td = None \<and> tableScanDestination e td = None \<and>
      newRowDiffer e td = None \<and> differGo e td = Inl err \<longrightarrow>
      (\<exists>w2. diffTable e td (w1, rec) = (w2, rec) \<and> state w2 = state w1 \<and>
         states w2 = states w1 \<and>
         logs w2 = logs w1 @ [LogErrorf2 err ''Differ.Go failed''])) \<and>
   (quietExceptGo e \<and> 0 < parallelDiffsCount w \<and> getSchemaDestination e = Inr dsd \<longrightarrow>
      (\<exists>w'. Run e w = Some (w', None) \<and> state w' = WorkerStateDone \<and>
         states w' = states w @ [WorkerStateInit, WorkerStateFindTargets,
           WorkerStateSyncReplication, WorkerStateDiff, WorkerStateCleanUp, WorkerStateDone] \<and>
         logs w' = logs w @ goFailures e (sort_key (goSchedule e) (TableDefinitions dsd))))"
  using diffTable_go_error [of e] Run_quiet [of e w dsd] by blast

text \<open>Witness for C9: the row differ of the only table fails, and the run ends in Done
  without an error.\<close>

theorem C9_differ_go_error_only_logged_witness:
  "quietExceptGo envGoFails \<and> 0 < parallelDiffsCount w0 \<and>
   differGo envGoFails t1 = Inl (External ''stream broken'') \<and>
   map_option snd (Run envGoFails w0) = Some None \<and>
   map_option (state \<circ> fst) (Run envGoFails w0) = Some WorkerStateDone \<and>
   map_option (logs \<circ> fst) (Run envGoFails w0) =
     Some [LogErrorf2 (External ''stream broken'') ''Differ.Go failed'']"
proof -
  have h1: "quietExceptGo envGoFails"
    by (simp add: quietExceptGo_def quietTable_def envGoFails_def envOK_def HasPrimary_def)
  have h2: "0 < parallelDiffsCount w0"
    by (simp add: w0_def)
  have h3: "getSchemaDestination envGoFails = Inr \<lparr>TableDefinitions = [t1]\<rparr>"
    by (simp add: envGoFails_def envOK_def)
  have g: "differGo envGoFails t1 = Inl (External ''stream broken'')"
    by (simp add: envGoFails_def envOK_def)
  from C9_differ_go_error_only_logged [of envGoFails w0 "\<lparr>TableDefinitions = [t1]\<rparr>"] h1 h2 h3
  obtain w' where
    1: "Run envGoFails w0 = Some (w', None)" "state w' = WorkerStateDone"
    "logs w' = logs w0 @ goFailures envGoFails
       (sort_key (goSchedule envGoFails) (TableDefinitions \<lparr>TableDefinitions = [t1]\<rparr>))"
    by blast
  have "logs w' = [LogErrorf2 (External ''stream broken'') ''Differ.Go failed'']"
    using 1(3) g by (simp add: goFailures_def List.map_filter_simps w0_def)
  with 1(1,2) h1 h2 g show ?thesis
    by simp
qed

text \<open>
  C10. init returns an error when the keyspace has no ServedFrom entry, and, with such an
  entry, when the number of source shards of the shard is not exactly one: two or more are
  rejected with the very error that none is rejected with. When init succeeds, the
  keyspace has a ServedFrom entry and the shard has exactly one source shard.
\<close>

theorem C10_init_preconditions:
  "(\<forall>ki. getKeyspace e = Inr ki \<and> ServedFroms ki = [] \<longrightarrow>
      snd (init e w) =
        Some (Errorf ''keyspace %v has no KeyspaceServedFrom'' [FStr (keyspace w)])) \<and>
   (\<forall>ki si. getKeyspace e = Inr ki \<and> ServedFroms ki \<noteq> [] \<and> getShard e = Inr si \<and>
      length (SourceShards si) \<noteq> 1 \<longrightarrow>
      snd (init e w) =
        Some (Errorf ''shard %v/%v has bad number of source shards''
                [FStr (keyspace w), FStr (shard w)])) \<and>
   (snd (init e w) = None \<longrightarrow>
      (\<exists>ki si. getKeyspace e = Inr ki \<and> ServedFroms ki \<noteq> [] \<and> getShard e = Inr si \<and>
         length (SourceShards si) = 1))"
  by (cases "getKeyspace e"; cases "getShard e")
     (auto simp: init_def Let_def prims split: list.splits if_splits)

text \<open>Witness for C10: a keyspace without ServedFrom entry, and a shard with two source
  shards, which gets the same error as a shard with none.\<close>

theorem C10_init_preconditions_witness:
  "snd (init envNoServedFrom w0) =
     Some (Errorf ''keyspace %v has no KeyspaceServedFrom'' [FStr ''dest'']) \<and>
   snd (init envTwoSources w0) =
     Some (Errorf ''shard %v/%v has bad number of source shards'' [FStr ''dest'', FStr ''0'']) \<and>
   snd (init envTwoSources w0) = snd (init envNoSources w0) \<and>
   snd (init envOK w0) = None"
proof -
  have 1: "getKeyspace envNoServedFrom = Inr \<lparr>ServedFroms = []\<rparr>"
    by (simp add: envNoServedFrom_def envOK_def)
  have "snd (init envNoServedFrom w0) =
     Some (Errorf ''keyspace %v has no KeyspaceServedFrom'' [FStr (keyspace w0)])"
    using C10_init_preconditions [of envNoServedFrom w0] 1 by simp
  then have a: "snd (init envNoServedFrom w0) =
     Some (Errorf ''keyspace %v has no KeyspaceServedFrom'' [FStr ''dest''])"
    by (simp add: w0_def)
  have 2: "getKeyspace envTwoSources = Inr \<lparr>ServedFroms = [(RDONLY, ''src'')]\<rparr>"
    "getShard envTwoSources = Inr \<lparr>PrimaryAlias = Some (TabletAlias ''zone1'' 100),
          SourceShards = [\<lparr>Uid = 1, Keyspace = ''src'', Shard = ''-80'', Tables = [''orders'']\<rparr>,
                          \<lparr>Uid = 2, Keyspace = ''src'', Shard = ''80-'', Tables = [''orders'']\<rparr>]\<rparr>"
    by (simp_all add: envTwoSources_def envOK_def)
  have "snd (init envTwoSources w0) =
     Some (Errorf ''shard %v/%v has bad number of source shards''
                [FStr (keyspace w0), FStr (shard w0)])"
    using C10_init_preconditions [of envTwoSources w0] 2 by simp
  then have b: "snd (init envTwoSources w0) =
     Some (Errorf ''shard %v/%v has bad number of source shards'' [FStr ''dest'', FStr ''0''])"
    by (simp add: w0_def)
  have c: "snd (init envNoSources w0) =
     Some (Errorf ''shard %v/%v has bad number of source shards'' [FStr ''dest'', FStr ''0''])"
    "snd (init envOK w0) = None"
    by (simp_all add: model_defs input_defs envNoSources_def)
  from a b c show ?thesis
    by simp
qed

end
